theory Spec2Isabelle
  imports Main
begin

section \<open>Strings of the source language\<close>

text \<open>
  The program is TypeScript. Its strings are sequences of UTF-16 code units; a code unit is
  modelled as a natural number and a string as a list of them. \<open>js\<close> turns an ASCII literal
  into such a string. A one-character string or \<open>undefined\<close> (the result of indexing a string
  out of range, or an absent optional field) is an \<open>option\<close>.
\<close>

type_synonym jschar = nat
type_synonym jsstring = "jschar list"

definition js :: "string \<Rightarrow> jsstring" where
  "js s = map of_char s"

text \<open>Character classes of ECMAScript regular expressions (no \<open>u\<close>, \<open>i\<close>, \<open>s\<close> or \<open>m\<close> flag).
  \<open>isSpace\<close> is \<open>\s\<close>, which is also what \<open>String.prototype.trim\<close> removes: WhiteSpace and
  LineTerminator. \<open>isWord\<close> is \<open>\w\<close>, \<open>isDigit\<close> is \<open>\d\<close>, \<open>isDot\<close> is \<open>.\<close> (anything but a
  line terminator).\<close>

definition isSpace :: "jschar \<Rightarrow> bool" where
  "isSpace c \<longleftrightarrow> c = 9 \<or> c = 10 \<or> c = 11 \<or> c = 12 \<or> c = 13 \<or> c = 32 \<or> c = 160 \<or> c = 5760
     \<or> (8192 \<le> c \<and> c \<le> 8202) \<or> c = 8232 \<or> c = 8233 \<or> c = 8239 \<or> c = 8287 \<or> c = 12288
     \<or> c = 65279"

definition isDigit :: "jschar \<Rightarrow> bool" where
  "isDigit c \<longleftrightarrow> 48 \<le> c \<and> c \<le> 57"

definition isNameStart :: "jschar \<Rightarrow> bool" where
  "isNameStart c \<longleftrightarrow> (65 \<le> c \<and> c \<le> 90) \<or> (97 \<le> c \<and> c \<le> 122) \<or> c = 95"

definition isWord :: "jschar \<Rightarrow> bool" where
  "isWord c \<longleftrightarrow> (65 \<le> c \<and> c \<le> 90) \<or> (97 \<le> c \<and> c \<le> 122) \<or> isDigit c \<or> c = 95"

definition isState :: "jschar \<Rightarrow> bool" where
  "isState c \<longleftrightarrow> c = 48 \<or> c = 49 \<or> c = 88 \<or> c = 90"

definition isDot :: "jschar \<Rightarrow> bool" where
  "isDot c \<longleftrightarrow> \<not> (c = 10 \<or> c = 13 \<or> c = 8232 \<or> c = 8233)"

definition notQuote :: "jschar \<Rightarrow> bool" where
  "notQuote c \<longleftrightarrow> c \<noteq> 34"

definition is_char :: "jschar \<Rightarrow> jschar \<Rightarrow> bool" where
  "is_char d c \<longleftrightarrow> c = d"

text \<open>\<open>s.trim()\<close>, \<open>s.startsWith(c)\<close> for a one-character \<open>c\<close>, \<open>s.split('\n')\<close> and
  \<open>lines.join('\n')\<close>.\<close>

definition trim :: "jsstring \<Rightarrow> jsstring" where
  "trim s = rev (dropWhile isSpace (rev (dropWhile isSpace s)))"

fun startsWith :: "jsstring \<Rightarrow> jschar \<Rightarrow> bool" where
  "startsWith [] c = False"
| "startsWith (x # xs) c = (x = c)"

fun split_nl :: "jsstring \<Rightarrow> jsstring list" where
  "split_nl [] = [[]]"
| "split_nl (c # cs) =
     (if c = 10 then [] # split_nl cs
      else (case split_nl cs of l # ls \<Rightarrow> (c # l) # ls | [] \<Rightarrow> [[c]]))"

fun join_nl :: "jsstring list \<Rightarrow> jsstring" where
  "join_nl [] = []"
| "join_nl [l] = l"
| "join_nl (l # ls) = l @ 10 # join_nl ls"

text \<open>Decimal rendering of a non-negative integer, as a template literal renders a number
  (exact below \<open>10^21\<close>, where JavaScript switches to exponent notation), and \<open>parseInt(s, 10)\<close>
  on a string of decimal digits (exact below \<open>2^53\<close>, where a double stops being exact).\<close>

fun show_nat :: "nat \<Rightarrow> jsstring" where
  "show_nat n = (if n < 10 then [48 + n] else show_nat (n div 10) @ [48 + n mod 10])"

declare show_nat.simps [simp del]

definition parseInt :: "jsstring \<Rightarrow> nat" where
  "parseInt s = foldl (\<lambda>acc c. 10 * acc + (c - 48)) 0 s"

section \<open>Regular expressions\<close>

text \<open>
  The regular expressions of the source use character classes, greedy \<open>*\<close> and \<open>+\<close> on a
  class, sequencing, one greedy optional group \<open>(?:...)?\<close>, capture groups and the anchors
  \<open>^\<close> and \<open>$\<close> (\<open>Eps\<close> is the empty pattern). \<open>rmatch\<close> is the backtracking matcher of ECMAScript in continuation style:
  it tries the alternatives in the order of the language (longest repetition first, the
  optional group before its absence) and returns the captures of the first that lets the
  continuation succeed. Every pattern of the source starts with \<open>^\<close>, so \<open>js_match\<close> matches at
  index 0 only; a pattern without \<open>$\<close> may stop before the end of the string.
\<close>

datatype regex =
    One "jschar \<Rightarrow> bool"
  | Star "jschar \<Rightarrow> bool"
  | Seq regex regex
  | Opt regex
  | Cap nat regex
  | Eos
  | Eps

type_synonym caps = "nat \<rightharpoonup> jsstring"

fun rmatch :: "regex \<Rightarrow> jsstring \<Rightarrow> caps \<Rightarrow> (jsstring \<Rightarrow> caps \<Rightarrow> caps option) \<Rightarrow> caps option" where
  "rmatch (One c) [] cs k = None"
| "rmatch (One c) (x # xs) cs k = (if c x then k xs cs else None)"
| "rmatch (Star c) [] cs k = k [] cs"
| "rmatch (Star c) (x # xs) cs k =
     (if c x
      then (case rmatch (Star c) xs cs k of Some r \<Rightarrow> Some r | None \<Rightarrow> k (x # xs) cs)
      else k (x # xs) cs)"
| "rmatch (Seq a b) s cs k = rmatch a s cs (\<lambda>s' cs'. rmatch b s' cs' k)"
| "rmatch (Opt a) s cs k = (case rmatch a s cs k of Some r \<Rightarrow> Some r | None \<Rightarrow> k s cs)"
| "rmatch (Cap n a) s cs k =
     rmatch a s cs (\<lambda>s' cs'. k s' (cs'(n \<mapsto> take (length s - length s') s)))"
| "rmatch Eos s cs k = (if s = [] then k s cs else None)"
| "rmatch Eps s cs k = k s cs"

definition Plus :: "(jschar \<Rightarrow> bool) \<Rightarrow> regex" where
  "Plus c = Seq (One c) (Star c)"

definition js_match :: "regex \<Rightarrow> jsstring \<Rightarrow> caps option" where
  "js_match r s = rmatch r s Map.empty (\<lambda>s' cs. Some cs)"

text \<open>\<^verbatim>\<open>/^@(\w+):\s*(.+)$/\<close>\<close>

definition directive_re :: regex where
  "directive_re =
     Seq (One (is_char 64)) (Seq (Cap 1 (Plus isWord)) (Seq (One (is_char 58))
       (Seq (Star isSpace) (Seq (Cap 2 (Plus isDot)) Eos))))"

text \<open>\<^verbatim>\<open>/^(\d+)\s+"([^"]+)"$/\<close>\<close>

definition marker_re :: regex where
  "marker_re =
     Seq (Cap 1 (Plus isDigit)) (Seq (Plus isSpace) (Seq (One (is_char 34))
       (Seq (Cap 2 (Plus notQuote)) (Seq (One (is_char 34)) Eos))))"

text \<open>\<^verbatim>\<open>/^([A-Za-z_][\w]*)\s*:\s*([01XZ]+)/\<close>, the common prefix of the signal patterns.\<close>

definition signal_head :: "regex \<Rightarrow> regex" where
  "signal_head rest =
     Seq (Cap 1 (Seq (One isNameStart) (Star isWord))) (Seq (Star isSpace)
       (Seq (One (is_char 58)) (Seq (Star isSpace) (Seq (Cap 2 (Plus isState)) rest))))"

text \<open>\<^verbatim>\<open>/^([A-Za-z_][\w]*)\s*:\s*([01XZ]+)(?:\s+"([^"]+)")?$/\<close>\<close>

definition signal_re :: regex where
  "signal_re =
     signal_head (Seq (Opt (Seq (Plus isSpace) (Seq (One (is_char 34))
       (Seq (Cap 3 (Plus notQuote)) (One (is_char 34)))))) Eos)"

text \<open>\<^verbatim>\<open>/^([A-Za-z_][\w]*)\s*:\s*([01XZ]+)/\<close> of the validator's second pass: no \<open>$\<close>, so the
  continuation accepts whatever follows the states.\<close>

definition signal_prefix_re :: regex where
  "signal_prefix_re = signal_head Eps"

text \<open>\<^verbatim>\<open>/^[01XZ]+$/\<close>\<close>

definition states_re :: regex where
  "states_re = Seq (Plus isState) Eos"

section \<open>Domain types\<close>

text \<open>
  The interfaces of \<^verbatim>\<open>domain/types.ts\<close>. An optional field \<open>f?: T\<close> is a \<open>T option\<close>, with
  \<open>None\<close> for \<open>undefined\<close>. The value of a run is declared \<open>'0' | '1' | 'X' | 'Z'\<close>, but
  \<open>parseSignalStates\<close> stores \<open>stateString[i]\<close> under a cast, so the field holds a code unit
  or \<open>undefined\<close>. A \<open>Date\<close> is its number of milliseconds since the epoch. Field names carry
  a prefix where two interfaces share a name or the name is taken in HOL.
\<close>

type_synonym Date = nat

record SignalState =
  svalue :: "jschar option"
  duration :: nat

record SignalStyle =
  style_color :: "jsstring option"
  height :: "nat option"
  showTransitions :: "bool option"
  lineWidth :: "nat option"

record Signal =
  sig_id :: jsstring
  sig_name :: jsstring
  sig_states :: "SignalState list"
  sig_style :: "SignalStyle option"
  sig_description :: "jsstring option"

record TimeMarker =
  position :: nat
  label :: jsstring
  marker_color :: "jsstring option"

record TimeConfiguration =
  totalSteps :: nat
  stepWidth :: nat
  tc_unit :: "jsstring option"
  tc_markers :: "TimeMarker list option"
  showGrid :: "bool option"

record DocumentMetadata =
  title :: jsstring
  md_description :: "jsstring option"
  author :: "jsstring option"
  created :: Date
  modified :: Date
  tags :: "jsstring list option"

record WaveformDocument =
  doc_id :: jsstring
  metadata :: DocumentMetadata
  signals :: "Signal list"
  timeConfig :: TimeConfiguration
  version :: jsstring

record ValidationError =
  err_line :: nat
  err_column :: "nat option"
  err_message :: jsstring
  err_code :: jsstring

record ValidationWarning =
  warn_line :: nat
  warn_message :: jsstring
  warn_code :: jsstring

record ValidationResult =
  valid :: bool
  errors :: "ValidationError list"
  warnings :: "ValidationWarning list"

text \<open>\<open>Partial<T>\<close>: every key may be absent (\<open>None\<close>) or present with a value of the
  field's type (\<open>Some v\<close>); for an optional field the value may itself be \<open>undefined\<close>.\<close>

record PartialSignal =
  ps_id :: "jsstring option"
  ps_name :: "jsstring option"
  ps_states :: "SignalState list option"
  ps_style :: "SignalStyle option option"
  ps_description :: "jsstring option option"

record PartialTimeConfiguration =
  pt_totalSteps :: "nat option"
  pt_stepWidth :: "nat option"
  pt_unit :: "jsstring option option"
  pt_markers :: "TimeMarker list option option"
  pt_showGrid :: "bool option option"

record PartialDocumentMetadata =
  pm_title :: "jsstring option"
  pm_description :: "jsstring option option"
  pm_author :: "jsstring option option"
  pm_created :: "Date option"
  pm_modified :: "Date option"
  pm_tags :: "jsstring list option option"

datatype error = TypeError | RangeError

section \<open>The clock and the id counter\<close>

text \<open>
  \<^verbatim>\<open>utils/id.ts\<close> keeps a module-level counter, and \<open>new Date()\<close> and \<open>Date.now()\<close> read the
  clock. Both are state: a \<open>world\<close> holds the clock as the sequence of its future readings,
  the number of readings taken so far and the counter. Functions that read the clock or
  make an id take a world and return the next one.
\<close>

record world =
  clock :: "nat \<Rightarrow> Date"
  reads :: nat
  counter :: nat

definition Date_now :: "world \<Rightarrow> Date \<times> world" where
  "Date_now w = (clock w (reads w), w\<lparr>reads := Suc (reads w)\<rparr>)"

text \<open>\<^verbatim>\<open>return `${Date.now()}-${++counter}`;\<close>\<close>

definition generateId :: "world \<Rightarrow> jsstring \<times> world" where
  "generateId w =
     (let (t, w1) = Date_now w;
          c = Suc (counter w1)
      in (show_nat t @ 45 # show_nat c, w1\<lparr>counter := c\<rparr>))"

section \<open>Document factory and helpers (domain/WaveformDocument.ts)\<close>

definition default_title :: jsstring where
  "default_title = js ''Untitled Waveform''"

text \<open>\<open>createDocument(title = 'Untitled Waveform')\<close>: \<open>new Date()\<close> is read first, then the id
  is generated.\<close>

definition createDocument :: "jsstring option \<Rightarrow> world \<Rightarrow> WaveformDocument \<times> world" where
  "createDocument t w =
     (let (now, w1) = Date_now w;
          (i, w2) = generateId w1
      in (\<lparr>doc_id = i,
           metadata = \<lparr>title = (case t of None \<Rightarrow> default_title | Some x \<Rightarrow> x),
                       md_description = None, author = None,
                       created = now, modified = now, tags = None\<rparr>,
           signals = [],
           timeConfig = \<lparr>totalSteps = 8, stepWidth = 40, tc_unit = None, tc_markers = None,
                         showGrid = Some True\<rparr>,
           version = js ''1.0.0''\<rparr>, w2))"

text \<open>The loop of \<open>parseSignalStates\<close> from index 1 on: \<open>cur\<close> is \<open>currentValue\<close>, \<open>d\<close> is
  \<open>duration\<close>, \<open>acc\<close> is \<open>states\<close>. The last run is pushed after the loop, whatever the
  input.\<close>

fun pss_loop :: "jsstring \<Rightarrow> jschar option \<Rightarrow> nat \<Rightarrow> SignalState list \<Rightarrow> SignalState list" where
  "pss_loop [] cur d acc = acc @ [\<lparr>svalue = cur, duration = d\<rparr>]"
| "pss_loop (v # vs) cur d acc =
     (if Some v = cur then pss_loop vs cur (d + 1) acc
      else pss_loop vs (Some v) 1 (acc @ [\<lparr>svalue = cur, duration = d\<rparr>]))"

text \<open>\<open>stateString[0]\<close> is \<open>undefined\<close> on the empty string.\<close>

definition parseSignalStates :: "jsstring \<Rightarrow> SignalState list" where
  "parseSignalStates stateString =
     pss_loop (drop 1 stateString)
       (case stateString of [] \<Rightarrow> None | c # _ \<Rightarrow> Some c) 1 []"

text \<open>\<open>states.map(state => state.value.repeat(state.duration)).join('')\<close>: calling \<open>repeat\<close>
  on \<open>undefined\<close> throws a TypeError, at the first such run.\<close>

fun serializeSignalStates :: "SignalState list \<Rightarrow> error + jsstring" where
  "serializeSignalStates [] = Inr []"
| "serializeSignalStates (st # rest) =
     (case svalue st of
        None \<Rightarrow> Inl TypeError
      | Some c \<Rightarrow>
          (case serializeSignalStates rest of
             Inl e \<Rightarrow> Inl e
           | Inr r \<Rightarrow> Inr (replicate (duration st) c @ r)))"

text \<open>\<open>createSignal(name, states?)\<close>: \<open>if (states)\<close> holds for a string that is present and
  not empty.\<close>

definition createSignal :: "jsstring \<Rightarrow> jsstring option \<Rightarrow> world \<Rightarrow> Signal \<times> world" where
  "createSignal name states w =
     (let (i, w1) = generateId w;
          signal = \<lparr>sig_id = i, sig_name = name, sig_states = [], sig_style = None,
                    sig_description = None\<rparr>
      in (case states of
            Some s \<Rightarrow> if s \<noteq> [] then signal\<lparr>sig_states := parseSignalStates s\<rparr> else signal
          | None \<Rightarrow> signal, w1))"

text \<open>Object spread \<open>{...old, ...updates}\<close>, field by field.\<close>

definition spread :: "'a \<Rightarrow> 'a option \<Rightarrow> 'a" where
  "spread old u = (case u of None \<Rightarrow> old | Some v \<Rightarrow> v)"

definition spreadSignal :: "Signal \<Rightarrow> PartialSignal \<Rightarrow> Signal" where
  "spreadSignal s u =
     \<lparr>sig_id = spread (sig_id s) (ps_id u), sig_name = spread (sig_name s) (ps_name u),
      sig_states = spread (sig_states s) (ps_states u),
      sig_style = spread (sig_style s) (ps_style u),
      sig_description = spread (sig_description s) (ps_description u)\<rparr>"

definition spreadTimeConfig :: "TimeConfiguration \<Rightarrow> PartialTimeConfiguration \<Rightarrow> TimeConfiguration" where
  "spreadTimeConfig c u =
     \<lparr>totalSteps = spread (totalSteps c) (pt_totalSteps u),
      stepWidth = spread (stepWidth c) (pt_stepWidth u),
      tc_unit = spread (tc_unit c) (pt_unit u),
      tc_markers = spread (tc_markers c) (pt_markers u),
      showGrid = spread (showGrid c) (pt_showGrid u)\<rparr>"

definition spreadMetadata :: "DocumentMetadata \<Rightarrow> PartialDocumentMetadata \<Rightarrow> DocumentMetadata" where
  "spreadMetadata m u =
     \<lparr>title = spread (title m) (pm_title u),
      md_description = spread (md_description m) (pm_description u),
      author = spread (author m) (pm_author u),
      created = spread (created m) (pm_created u),
      modified = spread (modified m) (pm_modified u),
      tags = spread (tags m) (pm_tags u)\<rparr>"

definition addSignal :: "WaveformDocument \<Rightarrow> Signal \<Rightarrow> world \<Rightarrow> WaveformDocument \<times> world" where
  "addSignal doc signal w =
     (let (now, w1) = Date_now w
      in (doc\<lparr>signals := signals doc @ [signal],
              metadata := (metadata doc)\<lparr>modified := now\<rparr>\<rparr>, w1))"

definition updateSignal :: "WaveformDocument \<Rightarrow> jsstring \<Rightarrow> PartialSignal \<Rightarrow> world \<Rightarrow> WaveformDocument \<times> world" where
  "updateSignal doc signalId updates w =
     (let (now, w1) = Date_now w
      in (doc\<lparr>signals := map (\<lambda>s. if sig_id s = signalId then spreadSignal s updates else s)
                            (signals doc),
              metadata := (metadata doc)\<lparr>modified := now\<rparr>\<rparr>, w1))"

definition removeSignal :: "WaveformDocument \<Rightarrow> jsstring \<Rightarrow> world \<Rightarrow> WaveformDocument \<times> world" where
  "removeSignal doc signalId w =
     (let (now, w1) = Date_now w
      in (doc\<lparr>signals := filter (\<lambda>s. sig_id s \<noteq> signalId) (signals doc),
              metadata := (metadata doc)\<lparr>modified := now\<rparr>\<rparr>, w1))"

text \<open>\<open>metadata: {...doc.metadata, ...updates, modified: new Date()}\<close>\<close>

definition updateMetadata :: "WaveformDocument \<Rightarrow> PartialDocumentMetadata \<Rightarrow> world \<Rightarrow> WaveformDocument \<times> world" where
  "updateMetadata doc updates w =
     (let (now, w1) = Date_now w
      in (doc\<lparr>metadata := (spreadMetadata (metadata doc) updates)\<lparr>modified := now\<rparr>\<rparr>, w1))"

definition updateTimeConfig :: "WaveformDocument \<Rightarrow> PartialTimeConfiguration \<Rightarrow> world \<Rightarrow> WaveformDocument \<times> world" where
  "updateTimeConfig doc updates w =
     (let (now, w1) = Date_now w
      in (doc\<lparr>timeConfig := spreadTimeConfig (timeConfig doc) updates,
              metadata := (metadata doc)\<lparr>modified := now\<rparr>\<rparr>, w1))"

text \<open>\<open>signal.states.reduce((sum, state) => sum + state.duration, 0)\<close>\<close>

definition signal_length :: "Signal \<Rightarrow> nat" where
  "signal_length s = foldl (\<lambda>sum state. sum + duration state) 0 (sig_states s)"

text \<open>\<open>Math.max(...xs)\<close> and \<open>Math.min(...xs)\<close> are only called behind a test that \<open>xs\<close> is not
  empty; the test and the call are one case distinction here. These definitions read the
  call by the language alone; an engine also bounds the number of arguments of a call,
  which \<open>parse_on_engine\<close> below adds for the parser.\<close>

definition calculateTotalSteps :: "WaveformDocument \<Rightarrow> nat" where
  "calculateTotalSteps doc =
     (case map signal_length (signals doc) of [] \<Rightarrow> 0 | l # ls \<Rightarrow> foldl max l ls)"

section \<open>Parser (services/Parser.ts)\<close>

text \<open>
  The variables that the loop of \<open>parse\<close> updates: \<open>currentTitle\<close>, \<open>currentUnit\<close>, \<open>markers\<close>,
  \<open>doc.signals\<close>, and the world (\<open>createSignal\<close> makes an id).
\<close>

record parse_state =
  currentTitle :: jsstring
  currentUnit :: "jsstring option"
  markers :: "TimeMarker list"
  doc_signals :: "Signal list"
  pworld :: world

text \<open>The destructuring \<open>[, a, b] = match\<close>; the first two groups of each pattern take part
  in every match.\<close>

definition groups2 :: "caps \<Rightarrow> (jsstring \<times> jsstring) option" where
  "groups2 cs = (case cs 1 of None \<Rightarrow> None
                 | Some a \<Rightarrow> (case cs 2 of None \<Rightarrow> None | Some b \<Rightarrow> Some (a, b)))"

text \<open>The body of \<open>case 'marker'\<close>.\<close>

definition parse_marker :: "jsstring \<Rightarrow> parse_state \<Rightarrow> parse_state" where
  "parse_marker v st =
     (case js_match marker_re v of
        None \<Rightarrow> st
      | Some ms \<Rightarrow>
          (case groups2 ms of
             None \<Rightarrow> st
           | Some (pos, lab) \<Rightarrow>
               st\<lparr>markers := markers st @
                     [\<lparr>position = parseInt pos, label = lab, marker_color = None\<rparr>]\<rparr>))"

text \<open>The branch \<open>if (line.startsWith('@'))\<close>, up to its \<open>continue\<close>.\<close>

definition parse_directive :: "jsstring \<Rightarrow> parse_state \<Rightarrow> parse_state" where
  "parse_directive line st =
     (case js_match directive_re line of
        None \<Rightarrow> st
      | Some cs \<Rightarrow>
          (case groups2 cs of
             None \<Rightarrow> st
           | Some (directive, v) \<Rightarrow>
               if directive = js ''title'' then st\<lparr>currentTitle := v\<rparr>
               else if directive = js ''unit'' then st\<lparr>currentUnit := Some v\<rparr>
               else if directive = js ''marker'' then parse_marker v st
               else st))"

text \<open>\<open>if (description) signal.description = description\<close>\<close>

definition set_description :: "jsstring option \<Rightarrow> Signal \<Rightarrow> Signal" where
  "set_description d signal =
     (case d of None \<Rightarrow> signal
      | Some x \<Rightarrow> if x \<noteq> [] then signal\<lparr>sig_description := Some x\<rparr> else signal)"

text \<open>The rest of the loop body: \<open>// Parse signal lines\<close>.\<close>

definition parse_signal_line :: "jsstring \<Rightarrow> parse_state \<Rightarrow> parse_state" where
  "parse_signal_line line st =
     (case js_match signal_re line of
        None \<Rightarrow> st
      | Some cs \<Rightarrow>
          (case groups2 cs of
             None \<Rightarrow> st
           | Some (name, states) \<Rightarrow>
               (let (signal, w1) = createSignal name (Some states) (pworld st)
                in st\<lparr>doc_signals := doc_signals st @ [set_description (cs 3) signal],
                       pworld := w1\<rparr>)))"

text \<open>One iteration of the loop, on \<open>lines[i]\<close>.\<close>

definition parse_line :: "jsstring \<Rightarrow> parse_state \<Rightarrow> parse_state" where
  "parse_line raw st =
     (let line = trim raw
      in if line = [] \<or> startsWith line 35 then st
         else if startsWith line 64 then parse_directive line st
         else parse_signal_line line st)"

text \<open>\<open>if (currentUnit) doc.timeConfig.unit = currentUnit\<close>,
  \<open>if (markers.length > 0) doc.timeConfig.markers = markers\<close>, and the total steps, which
  are set only \<open>if (doc.signals.length > 0)\<close>.\<close>

definition set_unit :: "jsstring option \<Rightarrow> TimeConfiguration \<Rightarrow> TimeConfiguration" where
  "set_unit u tc =
     (case u of None \<Rightarrow> tc | Some x \<Rightarrow> if x \<noteq> [] then tc\<lparr>tc_unit := Some x\<rparr> else tc)"

definition set_markers :: "TimeMarker list \<Rightarrow> TimeConfiguration \<Rightarrow> TimeConfiguration" where
  "set_markers ms tc = (if length ms > 0 then tc\<lparr>tc_markers := Some ms\<rparr> else tc)"

definition set_totalSteps :: "Signal list \<Rightarrow> TimeConfiguration \<Rightarrow> TimeConfiguration" where
  "set_totalSteps sigs tc =
     (case map signal_length sigs of
        [] \<Rightarrow> tc
      | l # ls \<Rightarrow> tc\<lparr>totalSteps := foldl max l ls\<rparr>)"

text \<open>The variables before the loop: \<open>currentTitle = 'Untitled Waveform'\<close>, \<open>currentUnit\<close>
  undefined, no markers, the signals of the new document.\<close>

definition initial_state :: "WaveformDocument \<Rightarrow> world \<Rightarrow> parse_state" where
  "initial_state doc w =
     \<lparr>currentTitle = js ''Untitled Waveform'', currentUnit = None, markers = [],
      doc_signals = signals doc, pworld = w\<rparr>"

definition parse :: "jsstring \<Rightarrow> world \<Rightarrow> WaveformDocument \<times> world" where
  "parse text w =
     (let (doc, w1) = createDocument None w;
          st = fold parse_line (split_nl text) (initial_state doc w1)
      in (doc\<lparr>metadata := (metadata doc)\<lparr>title := currentTitle st\<rparr>,
              signals := doc_signals st,
              timeConfig := set_totalSteps (doc_signals st)
                              (set_markers (markers st)
                                 (set_unit (currentUnit st) (timeConfig doc)))\<rparr>,
          pworld st))"

text \<open>
  An engine accepts only so many arguments in one call: a call with spread arguments,
  \<open>f(...xs)\<close>, throws a RangeError when \<open>xs\<close> has more elements than that. The bound depends
  on the engine and its stack, so it is a parameter, \<open>max_args\<close>. \<open>parse\<close> above is the
  function by the language alone; \<open>parse_on_engine\<close> is the same code on an engine with the
  bound: \<open>Math.max(...doc.signals.map(...))\<close> is the only call with spread arguments, and it
  comes after the loop, so the ids are made and the clock is read before it throws.
\<close>

definition set_totalSteps_on_engine ::
  "nat \<Rightarrow> Signal list \<Rightarrow> TimeConfiguration \<Rightarrow> error + TimeConfiguration" where
  "set_totalSteps_on_engine max_args sigs tc =
     (case map signal_length sigs of
        [] \<Rightarrow> Inr tc
      | l # ls \<Rightarrow>
          if max_args < length (l # ls) then Inl RangeError
          else Inr (tc\<lparr>totalSteps := foldl max l ls\<rparr>))"

definition parse_on_engine :: "nat \<Rightarrow> jsstring \<Rightarrow> world \<Rightarrow> (error + WaveformDocument) \<times> world" where
  "parse_on_engine max_args text w =
     (let (doc, w1) = createDocument None w;
          st = fold parse_line (split_nl text) (initial_state doc w1)
      in (case set_totalSteps_on_engine max_args (doc_signals st)
                 (set_markers (markers st) (set_unit (currentUnit st) (timeConfig doc))) of
            Inl e \<Rightarrow> Inl e
          | Inr tc \<Rightarrow>
              Inr (doc\<lparr>metadata := (metadata doc)\<lparr>title := currentTitle st\<rparr>,
                       signals := doc_signals st,
                       timeConfig := tc\<rparr>),
          pworld st))"

section \<open>Validator (services/Parser.ts)\<close>

definition mk_error :: "nat \<Rightarrow> string \<Rightarrow> string \<Rightarrow> ValidationError" where
  "mk_error n msg c = \<lparr>err_line = n, err_column = None, err_message = js msg, err_code = js c\<rparr>"

text \<open>The part of the first loop's body after the directive branch, on a trimmed line.\<close>

definition validate_signal_line ::
  "nat \<Rightarrow> jsstring \<Rightarrow> ValidationError list \<times> ValidationWarning list
     \<Rightarrow> ValidationError list \<times> ValidationWarning list" where
  "validate_signal_line lineNumber line acc =
     (case js_match signal_re line of
        None \<Rightarrow>
          (fst acc @ [mk_error lineNumber
              ''Invalid signal syntax. Expected format: NAME: 01010101'' ''INVALID_SIGNAL''],
           snd acc)
      | Some cs \<Rightarrow>
          (case groups2 cs of
             None \<Rightarrow> acc
           | Some (name, states) \<Rightarrow>
               (fst acc @
                  (if js_match states_re states = None
                   then [mk_error lineNumber
                           ''Signal states must only contain 0, 1, X, or Z'' ''INVALID_STATE'']
                   else []),
                snd acc @
                  (if length name > 32
                   then [\<lparr>warn_line = lineNumber,
                          warn_message = js ''Signal name is very long (>32 characters)'',
                          warn_code = js ''LONG_NAME''\<rparr>]
                   else []))))"

definition validate_line ::
  "nat \<Rightarrow> jsstring \<Rightarrow> ValidationError list \<times> ValidationWarning list
     \<Rightarrow> ValidationError list \<times> ValidationWarning list" where
  "validate_line lineNumber raw acc =
     (let line = trim raw
      in if line = [] \<or> startsWith line 35 then acc
         else if startsWith line 64 then
           (if js_match directive_re line = None
            then (fst acc @ [mk_error lineNumber ''Invalid directive syntax'' ''INVALID_DIRECTIVE''],
                  snd acc)
            else acc)
         else validate_signal_line lineNumber line acc)"

text \<open>The first loop, from index \<open>i\<close> on; \<open>lineNumber = i + 1\<close>.\<close>

fun validate_loop ::
  "nat \<Rightarrow> jsstring list \<Rightarrow> ValidationError list \<times> ValidationWarning list
     \<Rightarrow> ValidationError list \<times> ValidationWarning list" where
  "validate_loop i [] acc = acc"
| "validate_loop i (l # ls) acc = validate_loop (Suc i) ls (validate_line (i + 1) l acc)"

text \<open>\<open>Map.prototype.set\<close> on a map kept in insertion order: a key that is present keeps its
  place and takes the new value.\<close>

fun map_set :: "'k \<Rightarrow> 'v \<Rightarrow> ('k \<times> 'v) list \<Rightarrow> ('k \<times> 'v) list" where
  "map_set k v [] = [(k, v)]"
| "map_set k v ((k', v') # m) = (if k' = k then (k, v) # m else (k', v') # map_set k v m)"

text \<open>One iteration of the second loop (\<open>// Check for signal length consistency\<close>).\<close>

definition lengths_line :: "jsstring \<Rightarrow> (jsstring \<times> nat) list \<Rightarrow> (jsstring \<times> nat) list" where
  "lengths_line raw m =
     (let line = trim raw
      in if line = [] \<or> startsWith line 35 \<or> startsWith line 64 then m
         else (case js_match signal_prefix_re line of
                 None \<Rightarrow> m
               | Some cs \<Rightarrow>
                   (case groups2 cs of
                      None \<Rightarrow> m
                    | Some (name, states) \<Rightarrow> map_set name (length states) m)))"

definition length_warnings :: "(jsstring \<times> nat) list \<Rightarrow> ValidationWarning list" where
  "length_warnings signalLengths =
     (case map snd signalLengths of
        [] \<Rightarrow> []
      | l # ls \<Rightarrow>
          (let minLength = foldl min l ls;
               maxLength = foldl max l ls
           in if minLength \<noteq> maxLength
              then [\<lparr>warn_line = 0,
                     warn_message = js ''Signal lengths are inconsistent ('' @ show_nat minLength
                        @ js '' to '' @ show_nat maxLength @ js '' steps)'',
                     warn_code = js ''INCONSISTENT_LENGTHS''\<rparr>]
              else []))"

definition validate :: "jsstring \<Rightarrow> ValidationResult" where
  "validate text =
     (let lines = split_nl text;
          (errs, warns) = validate_loop 0 lines ([], []);
          signalLengths = fold lengths_line lines []
      in \<lparr>valid = (length errs = 0), errors = errs,
          warnings = warns @ length_warnings signalLengths\<rparr>)"

text \<open>The validator on an engine with the bound \<open>max_args\<close>: \<open>Math.min(...lengths)\<close> is its
  first call with spread arguments, on the lengths of the signals of different names.\<close>

definition length_warnings_on_engine ::
  "nat \<Rightarrow> (jsstring \<times> nat) list \<Rightarrow> error + ValidationWarning list" where
  "length_warnings_on_engine max_args signalLengths =
     (case map snd signalLengths of
        [] \<Rightarrow> Inr []
      | l # ls \<Rightarrow>
          if max_args < length (l # ls) then Inl RangeError
          else Inr (length_warnings signalLengths))"

definition validate_on_engine :: "nat \<Rightarrow> jsstring \<Rightarrow> error + ValidationResult" where
  "validate_on_engine max_args text =
     (let lines = split_nl text;
          (errs, warns) = validate_loop 0 lines ([], []);
          signalLengths = fold lengths_line lines []
      in (case length_warnings_on_engine max_args signalLengths of
            Inl e \<Rightarrow> Inl e
          | Inr lw \<Rightarrow> Inr \<lparr>valid = (length errs = 0), errors = errs, warnings = warns @ lw\<rparr>))"

section \<open>Serializer (services/Serializer.ts)\<close>

text \<open>\<^verbatim>\<open>`${signal.name}: ${states}`\<close>, then \<^verbatim>\<open>` "${signal.description}"`\<close> when there is a
  description. The error of \<open>serializeSignalStates\<close> propagates.\<close>

definition serializeSignal :: "Signal \<Rightarrow> error + jsstring" where
  "serializeSignal signal =
     (case serializeSignalStates (sig_states signal) of
        Inl e \<Rightarrow> Inl e
      | Inr states \<Rightarrow>
          Inr (sig_name signal @ 58 # 32 # states @
               (case sig_description signal of
                  None \<Rightarrow> []
                | Some d \<Rightarrow> if d \<noteq> [] then 32 # 34 # d @ [34] else [])))"

text \<open>\<open>doc.signals.forEach(signal => lines.push(this.serializeSignal(signal)))\<close>\<close>

fun serialize_signals :: "Signal list \<Rightarrow> error + jsstring list" where
  "serialize_signals [] = Inr []"
| "serialize_signals (s # ss) =
     (case serializeSignal s of
        Inl e \<Rightarrow> Inl e
      | Inr l \<Rightarrow> (case serialize_signals ss of Inl e \<Rightarrow> Inl e | Inr ls \<Rightarrow> Inr (l # ls)))"

text \<open>\<open>if (v) lines.push(prefix + v)\<close> for an optional string \<open>v\<close>.\<close>

definition opt_line :: "string \<Rightarrow> jsstring option \<Rightarrow> jsstring list" where
  "opt_line prefix v =
     (case v of None \<Rightarrow> [] | Some x \<Rightarrow> if x \<noteq> [] then [js prefix @ x] else [])"

definition marker_line :: "TimeMarker \<Rightarrow> jsstring" where
  "marker_line m = js ''@marker: '' @ show_nat (position m) @ 32 # 34 # label m @ [34]"

text \<open>The lines pushed before the signals, with the blank line that follows them when
  there are any.\<close>

definition header_lines :: "WaveformDocument \<Rightarrow> jsstring list" where
  "header_lines doc =
     (let lines =
            (if title (metadata doc) \<noteq> [] \<and> title (metadata doc) \<noteq> js ''Untitled Waveform''
             then [js ''@title: '' @ title (metadata doc)] else [])
            @ opt_line ''@description: '' (md_description (metadata doc))
            @ opt_line ''@unit: '' (tc_unit (timeConfig doc))
            @ (case tc_markers (timeConfig doc) of
                 None \<Rightarrow> []
               | Some ms \<Rightarrow> if length ms > 0 then map marker_line ms else [])
      in if length lines > 0 then lines @ [[]] else lines)"

definition serialize :: "WaveformDocument \<Rightarrow> error + jsstring" where
  "serialize doc =
     (case serialize_signals (signals doc) of
        Inl e \<Rightarrow> Inl e
      | Inr ls \<Rightarrow> Inr (join_nl (header_lines doc @ ls)))"

section \<open>Notions of the specification and example inputs\<close>

text \<open>A clock that starts at 1000 ms and advances by one at each reading, and a world
  with that clock and a fresh counter.\<close>

definition example_clock :: "nat \<Rightarrow> Date" where
  "example_clock n = 1000 + n"

definition example_world :: world where
  "example_world = \<lparr>clock = example_clock, reads = 0, counter = 0\<rparr>"

text \<open>The end-to-end example of the specification: a title, a unit, a marker, a blank line
  and the signal \<open>CLK: 0011 "Clock"\<close>.\<close>

definition demo_text :: jsstring where
  "demo_text =
     js ''@title: Demo'' @ 10 # js ''@unit: ns'' @ 10 # js ''@marker: 1 '' @ 34 # js ''Mid''
       @ 34 # 10 # 10 # js ''CLK: 0011 '' @ 34 # js ''Clock'' @ [34]"

text \<open>A run list is maximally compressed when every run lasts at least one step and no two
  adjacent runs have the same value.\<close>

fun compressed :: "SignalState list \<Rightarrow> bool" where
  "compressed [] = True"
| "compressed [r] = (1 \<le> duration r)"
| "compressed (r # r' # rs) =
     (1 \<le> duration r \<and> svalue r \<noteq> svalue r' \<and> compressed (r' # rs))"

text \<open>A pattern rejects a character class when it cannot match a string that starts with
  a character of the class, whatever follows. A greedy repetition of the class in front of
  such a pattern has only one way to match: the longest.\<close>

definition rejects :: "regex \<Rightarrow> (jschar \<Rightarrow> bool) \<Rightarrow> bool" where
  "rejects r c \<longleftrightarrow> (\<forall>x xs cs k. c x \<longrightarrow> rmatch r (x # xs) cs k = None)"

text \<open>A line that the parser's own patterns do not match: not blank, not a comment, and
  either a directive line that \<open>directive_re\<close> does not match (or a \<open>marker\<close> whose value
  \<open>marker_re\<close> does not match) or another line that \<open>signal_re\<close> does not match. This is the
  code's notion, not the grammar's: the code strips no trailing comment, so a signal line
  with a trailing comment is unmatched.\<close>

definition unmatched :: "jsstring \<Rightarrow> bool" where
  "unmatched raw =
     (let line = trim raw
      in line \<noteq> [] \<and> \<not> startsWith line 35 \<and>
         (if startsWith line 64
          then (case js_match directive_re line of
                  None \<Rightarrow> True
                | Some cs \<Rightarrow>
                    (case groups2 cs of
                       None \<Rightarrow> False
                     | Some (directive, v) \<Rightarrow>
                         directive = js ''marker'' \<and> js_match marker_re v = None))
          else js_match signal_re line = None))"

text \<open>What the code's patterns read from a line on its own: the signal of a line that
  \<open>signal_re\<close> matches (name, runs of the state string, description), the name and value of
  a line that \<open>directive_re\<close> matches, and the marker of a value that \<open>marker_re\<close> matches.
  They follow the code, not the grammar: a signal line with a trailing comment gives no
  signal.\<close>

definition signal_of_line :: "jsstring \<Rightarrow> (jsstring \<times> SignalState list \<times> jsstring option) option" where
  "signal_of_line raw =
     (let line = trim raw
      in if line = [] \<or> startsWith line 35 \<or> startsWith line 64 then None
         else (case js_match signal_re line of
                 None \<Rightarrow> None
               | Some cs \<Rightarrow>
                   (case groups2 cs of
                      None \<Rightarrow> None
                    | Some (name, states) \<Rightarrow> Some (name, parseSignalStates states, cs 3))))"

definition directive_of_line :: "jsstring \<Rightarrow> (jsstring \<times> jsstring) option" where
  "directive_of_line raw =
     (let line = trim raw
      in if startsWith line 64
         then (case js_match directive_re line of None \<Rightarrow> None | Some cs \<Rightarrow> groups2 cs)
         else None)"

definition marker_of_value :: "jsstring \<Rightarrow> TimeMarker option" where
  "marker_of_value v =
     (case js_match marker_re v of
        None \<Rightarrow> None
      | Some ms \<Rightarrow>
          (case groups2 ms of
             None \<Rightarrow> None
           | Some (pos, lab) \<Rightarrow> Some \<lparr>position = parseInt pos, label = lab, marker_color = None\<rparr>))"

text \<open>The values of the directives of a given name among some lines, in the order of the
  lines.\<close>

definition directive_values :: "string \<Rightarrow> jsstring list \<Rightarrow> jsstring list" where
  "directive_values name lines =
     map snd (filter (\<lambda>d. fst d = js name) (List.map_filter directive_of_line lines))"

text \<open>The state of the parser when its loop ends.\<close>

definition final_state :: "jsstring \<Rightarrow> world \<Rightarrow> parse_state" where
  "final_state text w =
     fold parse_line (split_nl text)
       (initial_state (fst (createDocument None w)) (snd (createDocument None w)))"

text \<open>What the text format carries of a signal: its name, its runs and its description.\<close>

definition signal_view :: "Signal \<Rightarrow> jsstring \<times> SignalState list \<times> jsstring option" where
  "signal_view sg = (sig_name sg, sig_states sg, sig_description sg)"

text \<open>The shape of every signal the parser makes: a name of the grammar, the runs of a
  string of state characters that is not empty, and a description, if any, that is not
  empty and has no quote and no line feed.\<close>

definition canonical_signal :: "Signal \<Rightarrow> bool" where
  "canonical_signal sg \<longleftrightarrow>
     (\<exists>x ws str. sig_name sg = x # ws \<and> isNameStart x \<and> (\<forall>c\<in>set ws. isWord c)
        \<and> str \<noteq> [] \<and> (\<forall>c\<in>set str. isState c) \<and> sig_states sg = parseSignalStates str)
     \<and> (case sig_description sg of
          None \<Rightarrow> True
        | Some d \<Rightarrow> d \<noteq> [] \<and> (\<forall>c\<in>set d. notQuote c) \<and> 10 \<notin> set d)"

text \<open>The invariant of the parser's loop on lines without a line feed: no accumulated
  string holds a line feed, and every signal is canonical.\<close>

definition state_ok :: "parse_state \<Rightarrow> bool" where
  "state_ok st \<longleftrightarrow>
     10 \<notin> set (currentTitle st)
     \<and> (case currentUnit st of None \<Rightarrow> True | Some u \<Rightarrow> 10 \<notin> set u)
     \<and> (\<forall>m\<in>set (markers st). 10 \<notin> set (label m))
     \<and> (\<forall>sg\<in>set (doc_signals st). canonical_signal sg)"

text \<open>The error codes that the validator does report.\<close>

definition known_codes :: "ValidationError list \<Rightarrow> bool" where
  "known_codes es \<longleftrightarrow>
     (\<forall>e\<in>set es. err_code e = js ''INVALID_DIRECTIVE'' \<or> err_code e = js ''INVALID_SIGNAL'')"

section \<open>The run-length codec\<close>

lemma serializeSignalStates_append:
  "serializeSignalStates (xs @ ys) =
     (case serializeSignalStates xs of
        Inl e \<Rightarrow> Inl e
      | Inr a \<Rightarrow> (case serializeSignalStates ys of Inl e \<Rightarrow> Inl e | Inr b \<Rightarrow> Inr (a @ b)))"
  by (induction xs) (auto split: option.splits sum.splits)

lemma pss_loop_decode:
  "serializeSignalStates acc = Inr a \<Longrightarrow>
   serializeSignalStates (pss_loop vs (Some c) d acc) = Inr (a @ replicate d c @ vs)"
proof (induction vs arbitrary: c d acc a)
  case Nil
  then show ?case by (simp add: serializeSignalStates_append)
next
  case (Cons v vs)
  show ?case
  proof (cases "v = c")
    case True
    with Cons show ?thesis by (simp add: replicate_append_same)
  next
    case False
    have "serializeSignalStates (acc @ [\<lparr>svalue = Some c, duration = d\<rparr>])
            = Inr (a @ replicate d c)"
      using Cons.prems by (simp add: serializeSignalStates_append)
    from Cons.IH [OF this, of v 1] False show ?thesis by simp
  qed
qed

text \<open>On a string that is not empty, decoding the encoded runs gives the string back.\<close>

lemma decode_encode_nonempty:
  "s \<noteq> [] \<Longrightarrow> serializeSignalStates (parseSignalStates s) = Inr s"
  by (cases s) (simp_all add: parseSignalStates_def pss_loop_decode)

text \<open>
  Claim C6: the encoder applied to the empty sequence returns the empty run list.
  The code does not: on the empty string \<open>stateString[0]\<close> is \<open>undefined\<close>, the loop does not
  run, and the push after the loop stores one run of duration 1 whose value is \<open>undefined\<close>.
\<close>

theorem parseSignalStates_empty_is_one_undefined_run:
  "parseSignalStates [] = [\<lparr>svalue = None, duration = 1\<rparr>]"
  by (simp add: parseSignalStates_def)

text \<open>
  Claim C2: decoding the encoding of any sequence gives the sequence back. At the empty
  sequence the code does not: the encoder returns the run with the \<open>undefined\<close> value, and
  the decoder's \<open>repeat\<close> on it throws a TypeError instead of returning the empty string.
\<close>

theorem decode_encode_empty_raises:
  "serializeSignalStates (parseSignalStates []) = Inl TypeError"
  by (simp add: parseSignalStates_def)

section \<open>The patterns of the grammar match in one way only\<close>

lemmas char_class_defs =
  isSpace_def isDigit_def isNameStart_def isWord_def isState_def isDot_def notQuote_def is_char_def

lemma rejects_One: "(\<And>x. c x \<Longrightarrow> \<not> d x) \<Longrightarrow> rejects (One d) c"
  by (simp add: rejects_def)

lemma rejects_Seq: "rejects a c \<Longrightarrow> rejects (Seq a b) c"
  by (simp add: rejects_def)

lemma rejects_Cap: "rejects a c \<Longrightarrow> rejects (Cap n a) c"
  by (simp add: rejects_def)

lemma rejects_Eos: "rejects Eos c"
  by (simp add: rejects_def)

lemma rejects_Seq_Star: "(\<And>x. c x \<Longrightarrow> \<not> d x) \<Longrightarrow> rejects b c \<Longrightarrow> rejects (Seq (Star d) b) c"
  by (simp add: rejects_def)

lemma rejects_Seq_Opt: "rejects a c \<Longrightarrow> rejects b c \<Longrightarrow> rejects (Seq (Opt a) b) c"
  by (simp add: rejects_def)

lemma rejects_Plus: "(\<And>x. c x \<Longrightarrow> \<not> d x) \<Longrightarrow> rejects (Plus d) c"
  by (simp add: rejects_def Plus_def)

lemma star_commit:
  "(\<And>x xs. c x \<Longrightarrow> k (x # xs) cs = None) \<Longrightarrow> rmatch (Star c) s cs k = k (dropWhile c s) cs"
  by (induction s) (auto split: option.splits)

lemma take_takeWhile:
  "take (Suc (length xs) - length (dropWhile c xs)) (x # xs) = x # takeWhile c xs"
proof -
  have "length (takeWhile c xs) + length (dropWhile c xs) = length xs"
    by (metis length_append takeWhile_dropWhile_id)
  then have "Suc (length xs) - length (dropWhile c xs) = Suc (length (takeWhile c xs))"
    by arith
  then show ?thesis
    by (simp add: takeWhile_eq_take [symmetric])
qed

lemma seq_star:
  "rejects R c \<Longrightarrow> rmatch (Seq (Star c) R) s cs k = rmatch R (dropWhile c s) cs k"
  by (simp add: star_commit rejects_def)

lemma seq_one:
  "rmatch (Seq (One d) R) s cs k =
     (case s of [] \<Rightarrow> None | x # xs \<Rightarrow> if d x then rmatch R xs cs k else None)"
  by (cases s) simp_all

lemma seq_plus:
  "rejects R c \<Longrightarrow> rmatch (Seq (Plus c) R) s cs k =
     (case s of [] \<Rightarrow> None | x # xs \<Rightarrow> if c x then rmatch R (dropWhile c xs) cs k else None)"
  by (cases s) (simp_all add: Plus_def star_commit rejects_def)

lemma seq_cap:
  assumes "rejects R c"
  shows "rmatch (Seq (Cap n (Seq (One d) (Star c))) R) s cs k =
     (case s of [] \<Rightarrow> None
      | x # xs \<Rightarrow> if d x then rmatch R (dropWhile c xs) (cs(n \<mapsto> x # takeWhile c xs)) k else None)"
proof (cases s)
  case Nil
  then show ?thesis by simp
next
  case (Cons x xs)
  have "rmatch (Star c) xs cs
          (\<lambda>s' cs'. rmatch R s' (cs'(n \<mapsto> take (length (x # xs) - length s') (x # xs))) k)
        = rmatch R (dropWhile c xs)
            (cs(n \<mapsto> take (length (x # xs) - length (dropWhile c xs)) (x # xs))) k"
    using assms by (intro star_commit) (simp add: rejects_def)
  then show ?thesis
    using Cons by (simp add: take_takeWhile)
qed

lemma seq_cap_plus:
  "rejects R c \<Longrightarrow> rmatch (Seq (Cap n (Plus c)) R) s cs k =
     (case s of [] \<Rightarrow> None
      | x # xs \<Rightarrow> if c x then rmatch R (dropWhile c xs) (cs(n \<mapsto> x # takeWhile c xs)) k else None)"
  unfolding Plus_def by (rule seq_cap)


lemma rejects_colon_after_name:
  "rejects (Seq (Star isSpace) (Seq (One (is_char 58)) R)) isWord"
  by (rule rejects_Seq_Star) (auto intro!: rejects_Seq rejects_One simp: char_class_defs)

lemma rejects_colon_after_space: "rejects (Seq (One (is_char 58)) R) isSpace"
  by (auto intro!: rejects_Seq rejects_One simp: char_class_defs)

lemma rejects_states_after_space: "rejects (Seq (Cap n (Plus isState)) R) isSpace"
  by (auto intro!: rejects_Seq rejects_Cap rejects_Plus simp: char_class_defs)

lemma rejects_quote_after_space: "rejects (Seq (One (is_char 34)) R) isSpace"
  by (auto intro!: rejects_Seq rejects_One simp: char_class_defs)

lemma rejects_quote_after_text: "rejects (One (is_char 34)) notQuote"
  by (auto intro!: rejects_One simp: char_class_defs)

lemma rejects_tail_after_states:
  "rejects (Seq (Opt (Seq (Plus isSpace) G)) Eos) isState"
  by (rule rejects_Seq_Opt) (auto intro!: rejects_Seq rejects_Plus rejects_Eos simp: char_class_defs)

lemma seq_opt:
  "rmatch (Seq (Opt G) R) r cs k =
     (case rmatch G r cs (\<lambda>s' cs'. rmatch R s' cs' k) of
        Some x \<Rightarrow> Some x
      | None \<Rightarrow> rmatch R r cs k)"
  by simp

lemma signal_head_match:
  assumes "rejects rest isState"
  shows "rmatch (signal_head rest) s cs k =
     (case s of [] \<Rightarrow> None
      | x # xs \<Rightarrow>
          if isNameStart x then
            (case dropWhile isSpace (dropWhile isWord xs) of [] \<Rightarrow> None
             | y # r2 \<Rightarrow>
                 if y = 58 then
                   (case dropWhile isSpace r2 of [] \<Rightarrow> None
                    | z # r3 \<Rightarrow>
                        if isState z
                        then rmatch rest (dropWhile isState r3)
                               (cs(1 \<mapsto> x # takeWhile isWord xs, 2 \<mapsto> z # takeWhile isState r3)) k
                        else None)
                 else None)
          else None)"
  unfolding signal_head_def
  by (simp add: seq_cap [OF rejects_colon_after_name] seq_star [OF rejects_colon_after_space]
        seq_one seq_star [OF rejects_states_after_space] seq_cap_plus [OF assms] is_char_def
      del: rmatch.simps cong: list.case_cong if_cong)

lemma one_match:
  "rmatch (One d) s cs k = (case s of [] \<Rightarrow> None | x # xs \<Rightarrow> if d x then k xs cs else None)"
  by (cases s) simp_all

lemma eos_match: "rmatch Eos s cs k = (if s = [] then k [] cs else None)"
  by simp

lemma description_group_match:
  "rmatch (Seq (Plus isSpace) (Seq (One (is_char 34))
       (Seq (Cap n (Plus notQuote)) (One (is_char 34))))) r cs k =
     (case r of [] \<Rightarrow> None
      | z # zs \<Rightarrow>
          if isSpace z then
            (case dropWhile isSpace zs of [] \<Rightarrow> None
             | q # r5 \<Rightarrow>
                 if q = 34 then
                   (case r5 of [] \<Rightarrow> None
                    | u # us \<Rightarrow>
                        if notQuote u then
                          (case dropWhile notQuote us of [] \<Rightarrow> None
                           | q2 # r6 \<Rightarrow>
                               if q2 = 34 then k r6 (cs(n \<mapsto> u # takeWhile notQuote us))
                               else None)
                        else None)
                 else None)
          else None)"
  by (simp add: seq_plus [OF rejects_quote_after_space] seq_one
        seq_cap_plus [OF rejects_quote_after_text] is_char_def one_match
      del: rmatch.simps cong: list.case_cong if_cong)

lemma option_case_None_None: "(case e of None \<Rightarrow> None | Some x \<Rightarrow> Some x) = e"
  by (cases e) simp_all

lemma description_tail_match:
  "rmatch (Seq (Opt (Seq (Plus isSpace) (Seq (One (is_char 34))
       (Seq (Cap n (Plus notQuote)) (One (is_char 34)))))) Eos) r cs (\<lambda>s' cs'. Some cs') =
     (case r of [] \<Rightarrow> Some cs
      | z # zs \<Rightarrow>
          if isSpace z then
            (case dropWhile isSpace zs of [] \<Rightarrow> None
             | q # r5 \<Rightarrow>
                 if q = 34 then
                   (case r5 of [] \<Rightarrow> None
                    | u # us \<Rightarrow>
                        if notQuote u then
                          (case dropWhile notQuote us of [] \<Rightarrow> None
                           | q2 # r6 \<Rightarrow>
                               if q2 = 34
                               then if r6 = [] then Some (cs(n \<mapsto> u # takeWhile notQuote us))
                                    else None
                               else None)
                        else None)
                 else None)
          else None)"
  by (cases r)
     (simp_all add: seq_opt description_group_match option_case_None_None eos_match
        del: rmatch.simps cong: list.case_cong if_cong option.case_cong)

lemma signal_re_match:
  "js_match signal_re s =
     (case s of [] \<Rightarrow> None
      | x # xs \<Rightarrow>
          if isNameStart x then
            (case dropWhile isSpace (dropWhile isWord xs) of [] \<Rightarrow> None
             | y # r2 \<Rightarrow>
                 if y = 58 then
                   (case dropWhile isSpace r2 of [] \<Rightarrow> None
                    | z # r3 \<Rightarrow>
                        if isState z
                        then rmatch (Seq (Opt (Seq (Plus isSpace) (Seq (One (is_char 34))
                                 (Seq (Cap 3 (Plus notQuote)) (One (is_char 34)))))) Eos)
                               (dropWhile isState r3)
                               [1 \<mapsto> x # takeWhile isWord xs, 2 \<mapsto> z # takeWhile isState r3]
                               (\<lambda>s' cs'. Some cs')
                        else None)
                 else None)
          else None)"
  unfolding js_match_def signal_re_def
  by (rule signal_head_match [OF rejects_tail_after_states])

text \<open>What a match of the signal pattern says about the line and the groups.\<close>

lemma dropWhile_Cons_set: "dropWhile P xs = y # ys \<Longrightarrow> y \<in> set xs \<and> set ys \<subseteq> set xs"
  using set_dropWhileD [of _ P xs] by auto

lemma signal_re_sound:
  assumes "js_match signal_re s = Some cs"
  shows "\<exists>x ws states. cs 1 = Some (x # ws) \<and> isNameStart x \<and> (\<forall>c\<in>set ws. isWord c)
           \<and> cs 2 = Some states \<and> states \<noteq> [] \<and> (\<forall>c\<in>set states. isState c)
           \<and> (case cs 3 of None \<Rightarrow> True
                | Some d \<Rightarrow> d \<noteq> [] \<and> (\<forall>c\<in>set d. notQuote c) \<and> set d \<subseteq> set s)"
proof -
  let ?tail = "Seq (Opt (Seq (Plus isSpace) (Seq (One (is_char 34))
                 (Seq (Cap 3 (Plus notQuote)) (One (is_char 34)))))) Eos"
  from assms obtain x xs r2 z r3 where
    s: "s = x # xs" and x: "isNameStart x" and
    r2: "dropWhile isSpace (dropWhile isWord xs) = 58 # r2" and
    r3: "dropWhile isSpace r2 = z # r3" and z: "isState z" and
    tail: "rmatch ?tail (dropWhile isState r3)
             [1 \<mapsto> x # takeWhile isWord xs, 2 \<mapsto> z # takeWhile isState r3]
             (\<lambda>s' cs'. Some cs') = Some cs"
    unfolding signal_re_match by (auto split: list.splits if_splits)
  let ?cs2 = "[1 \<mapsto> x # takeWhile isWord xs, 2 \<mapsto> z # takeWhile isState r3]"
  have r3s: "set r3 \<subseteq> set s"
    using dropWhile_Cons_set [OF r2] dropWhile_Cons_set [OF r3] set_dropWhileD [of _ isWord xs] s
    by auto
  from tail consider "cs = ?cs2"
    | t zs u us where "dropWhile isState r3 = t # zs" "dropWhile isSpace zs = 34 # u # us"
        "notQuote u" "cs = ?cs2(3 \<mapsto> u # takeWhile notQuote us)"
    unfolding description_tail_match by (auto split: list.splits if_splits)
  then show ?thesis
  proof cases
    case 1
    then show ?thesis using x z by (auto dest: set_takeWhileD)
  next
    case 2
    have "set (u # us) \<subseteq> set s"
      using dropWhile_Cons_set [OF 2(1)] dropWhile_Cons_set [OF 2(2)] r3s by auto
    moreover have "set (takeWhile notQuote us) \<subseteq> set us"
      by (auto dest: set_takeWhileD)
    ultimately show ?thesis using x z 2(3,4) by (auto dest: set_takeWhileD)
  qed
qed


lemma takeWhile_stop: "\<forall>c\<in>set xs. P c \<Longrightarrow> \<not> P y \<Longrightarrow> takeWhile P (xs @ y # r) = xs"
  by (induction xs) simp_all

lemma dropWhile_stop: "\<forall>c\<in>set xs. P c \<Longrightarrow> \<not> P y \<Longrightarrow> dropWhile P (xs @ y # r) = y # r"
  by (induction xs) simp_all

lemma takeWhile_all: "\<forall>c\<in>set xs. P c \<Longrightarrow> takeWhile P xs = xs"
  by (induction xs) simp_all

lemma dropWhile_all: "\<forall>c\<in>set xs. P c \<Longrightarrow> dropWhile P xs = []"
  by (induction xs) simp_all

lemma class_facts [simp]:
  "\<not> isWord 58" "\<not> isSpace 58" "isSpace 32" "\<not> isState 32" "\<not> isSpace 34" "\<not> notQuote 34"
  "isState c \<Longrightarrow> \<not> isSpace c" "isNameStart c \<Longrightarrow> \<not> isSpace c" "isState c \<Longrightarrow> isWord c"
  by (auto simp: char_class_defs)

lemma signal_re_canonical:
  assumes "isNameStart x" "\<forall>c\<in>set ws. isWord c" "states \<noteq> []" "\<forall>c\<in>set states. isState c"
  shows "js_match signal_re ((x # ws) @ 58 # 32 # states) = Some [1 \<mapsto> x # ws, 2 \<mapsto> states]"
proof -
  from assms obtain z zs where st: "states = z # zs" "isState z" "\<forall>c\<in>set zs. isState c"
    by (cases states) auto
  show ?thesis
    unfolding signal_re_match description_tail_match
    using assms(1,2) st
    by (simp add: takeWhile_stop dropWhile_stop takeWhile_all dropWhile_all)
qed

lemma signal_re_canonical_described:
  assumes "isNameStart x" "\<forall>c\<in>set ws. isWord c" "states \<noteq> []" "\<forall>c\<in>set states. isState c"
    and "d \<noteq> []" "\<forall>c\<in>set d. notQuote c"
  shows "js_match signal_re ((x # ws) @ 58 # 32 # states @ 32 # 34 # d @ [34])
           = Some [1 \<mapsto> x # ws, 2 \<mapsto> states, 3 \<mapsto> d]"
proof -
  from assms obtain z zs where st: "states = z # zs" "isState z" "\<forall>c\<in>set zs. isState c"
    by (cases states) auto
  from assms obtain u us where d: "d = u # us" "notQuote u" "\<forall>c\<in>set us. notQuote c"
    by (cases d) auto
  show ?thesis
    unfolding signal_re_match description_tail_match
    using assms(1,2) st d
    by (simp add: takeWhile_stop dropWhile_stop takeWhile_all dropWhile_all)
qed

text \<open>The directive and marker patterns: what a match says about the groups.\<close>

lemma star_sound: "rmatch (Star c) s cs k = Some r \<Longrightarrow> \<exists>s'. k s' cs = Some r"
  by (induction s) (auto split: if_splits option.splits)

lemma rejects_colon_after_word: "rejects (Seq (One (is_char 58)) R) isWord"
  by (auto intro!: rejects_Seq rejects_One simp: char_class_defs)

lemma directive_re_sound:
  assumes "js_match directive_re s = Some cs"
  shows "\<exists>v. cs 2 = Some v \<and> v \<noteq> [] \<and> (\<forall>c\<in>set v. isDot c)"
proof -
  let ?val = "Seq (Cap 2 (Plus isDot)) Eos"
  from assms obtain cs1 r where
    "rmatch (Seq (Star isSpace) ?val) r cs1 (\<lambda>s' cs'. Some cs') = Some cs"
    unfolding js_match_def directive_re_def
    by (simp add: seq_one seq_cap_plus [OF rejects_colon_after_word] del: rmatch.simps
          split: list.splits if_splits)
  then obtain s' where "rmatch ?val s' cs1 (\<lambda>s' cs'. Some cs') = Some cs"
    by (auto dest: star_sound)
  then obtain u us where "cs = cs1(2 \<mapsto> u # takeWhile isDot us)" "isDot u"
    by (auto simp add: seq_cap_plus [OF rejects_Eos] eos_match simp del: rmatch.simps split: list.splits if_splits)
  then show ?thesis by (auto dest: set_takeWhileD)
qed

lemma rejects_space_after_digits: "rejects (Seq (Plus isSpace) R) isDigit"
  by (auto intro!: rejects_Seq rejects_Plus simp: char_class_defs)

lemma rejects_closing_quote: "rejects (Seq (One (is_char 34)) R) notQuote"
  by (auto intro!: rejects_Seq rejects_One simp: char_class_defs)

lemma marker_re_sound:
  assumes "js_match marker_re v = Some ms"
  shows "\<exists>lab. ms 2 = Some lab \<and> set lab \<subseteq> set v"
proof -
  from assms obtain x xs z zs u us where
    v: "v = x # xs" "dropWhile isDigit xs = z # zs" "dropWhile isSpace zs = 34 # u # us"
    and ms: "ms = [1 \<mapsto> x # takeWhile isDigit xs, 2 \<mapsto> u # takeWhile notQuote us]"
    unfolding js_match_def marker_re_def
    by (simp add: seq_cap_plus [OF rejects_space_after_digits] seq_plus [OF rejects_quote_after_space]
          seq_one seq_cap_plus [OF rejects_closing_quote] is_char_def eos_match
          del: rmatch.simps split: list.splits if_splits)
  have "set (u # us) \<subseteq> set v"
    using dropWhile_Cons_set [OF v(2)] dropWhile_Cons_set [OF v(3)] v(1) by auto
  moreover have "set (takeWhile notQuote us) \<subseteq> set us"
    by (auto dest: set_takeWhileD)
  ultimately show ?thesis using ms by auto
qed


section \<open>Lines\<close>

lemma split_nl_nonempty: "split_nl t \<noteq> []"
  by (induction t) (auto split: list.splits)

lemma split_nl_no_nl: "l \<in> set (split_nl t) \<Longrightarrow> 10 \<notin> set l"
  by (induction t arbitrary: l) (auto split: if_splits list.splits)

lemma split_nl_line: "10 \<notin> set l \<Longrightarrow> split_nl l = [l]"
  by (induction l) auto

lemma split_nl_append: "10 \<notin> set l \<Longrightarrow> split_nl (l @ 10 # rest) = l # split_nl rest"
  by (induction l) (auto split: list.splits)

lemma split_join:
  "ls \<noteq> [] \<Longrightarrow> \<forall>l\<in>set ls. 10 \<notin> set l \<Longrightarrow> split_nl (join_nl ls) = ls"
  by (induction ls rule: join_nl.induct) (simp_all add: split_nl_line split_nl_append)

lemma trim_Nil: "trim [] = []"
  by (simp add: trim_def)

lemma trim_subset: "set (trim s) \<subseteq> set s"
proof
  fix x assume "x \<in> set (trim s)"
  then have "x \<in> set (dropWhile isSpace (rev (dropWhile isSpace s)))"
    by (simp add: trim_def)
  then have "x \<in> set (rev (dropWhile isSpace s))" by (rule set_dropWhileD)
  then have "x \<in> set (dropWhile isSpace s)" by simp
  then show "x \<in> set s" by (rule set_dropWhileD)
qed

lemma trim_keeps_first: "\<not> isSpace x \<Longrightarrow> \<exists>r. trim (x # xs) = x # r"
proof -
  assume x: "\<not> isSpace x"
  have "dropWhile isSpace (rev xs @ [x]) = dropWhile isSpace (rev xs) @ [x]"
    using x by (simp add: dropWhile_append)
  then have "trim (x # xs) = x # rev (dropWhile isSpace (rev xs))"
    using x by (simp add: trim_def)
  then show ?thesis by blast
qed

lemma trim_id: "s \<noteq> [] \<Longrightarrow> \<not> isSpace (hd s) \<Longrightarrow> \<not> isSpace (last s) \<Longrightarrow> trim s = s"
proof -
  assume s: "s \<noteq> []" and h: "\<not> isSpace (hd s)" and l: "\<not> isSpace (last s)"
  from s h have "dropWhile isSpace s = s" by (cases s) auto
  moreover from s l have "dropWhile isSpace (rev s) = rev s"
    by (cases "rev s") (auto simp: last_rev [symmetric] simp del: last_rev)
  ultimately show ?thesis by (simp add: trim_def)
qed


section \<open>One line of the parser\<close>

lemma parse_line_unmatched: "unmatched raw \<Longrightarrow> parse_line raw st = st"
  by (auto simp: unmatched_def parse_line_def parse_directive_def parse_marker_def
        parse_signal_line_def Let_def js_def split: option.splits if_splits)

lemma parse_directive_signals: "doc_signals (parse_directive line st) = doc_signals st"
  by (simp add: parse_directive_def parse_marker_def split: option.splits prod.splits)

lemma parse_line_header:
  assumes "h = [] \<or> startsWith h 64"
  shows "doc_signals (parse_line h st) = doc_signals st"
proof (cases h)
  case Nil
  then show ?thesis by (simp add: parse_line_def trim_Nil)
next
  case (Cons x xs)
  with assms have "x = 64" by simp
  then obtain r where "trim h = 64 # r"
    using trim_keeps_first [of 64 xs] Cons by (auto simp: isSpace_def)
  then show ?thesis by (simp add: parse_line_def parse_directive_signals)
qed

lemma isDot_no_nl: "\<forall>c\<in>set v. isDot c \<Longrightarrow> 10 \<notin> set v"
  by (auto simp: isDot_def)

lemma groups2_Some: "groups2 cs = Some (a, b) \<longleftrightarrow> cs 1 = Some a \<and> cs 2 = Some b"
  by (auto simp: groups2_def split: option.splits)

lemma parse_marker_ok:
  assumes "state_ok st" "10 \<notin> set v"
  shows "state_ok (parse_marker v st)"
proof (cases "js_match marker_re v")
  case None
  then show ?thesis using assms by (simp add: parse_marker_def)
next
  case (Some ms)
  from marker_re_sound [OF Some] obtain lab where "ms 2 = Some lab" "set lab \<subseteq> set v" by blast
  with assms Some show ?thesis
    by (auto simp: parse_marker_def state_ok_def groups2_def split: option.splits)
qed

lemma parse_directive_ok:
  assumes "state_ok st"
  shows "state_ok (parse_directive line st)"
proof (cases "js_match directive_re line")
  case None
  then show ?thesis using assms by (simp add: parse_directive_def)
next
  case (Some cs)
  from directive_re_sound [OF Some] obtain v where v: "cs 2 = Some v" "\<forall>c\<in>set v. isDot c"
    by blast
  then have "10 \<notin> set v" by (simp add: isDot_no_nl)
  with assms Some v(1) show ?thesis
    by (auto simp: parse_directive_def groups2_def parse_marker_ok state_ok_def [of "_\<lparr>currentTitle := _\<rparr>"]
          state_ok_def [of "_\<lparr>currentUnit := _\<rparr>"] state_ok_def [of st]
          split: option.splits)
qed

lemma createSignal_fields:
  "sig_name (fst (createSignal name (Some str) w)) = name"
  "str \<noteq> [] \<Longrightarrow> sig_states (fst (createSignal name (Some str) w)) = parseSignalStates str"
  "sig_description (fst (createSignal name (Some str) w)) = None"
  by (simp_all add: createSignal_def split_def Let_def)

lemma parse_signal_line_ok:
  assumes "state_ok st" "10 \<notin> set line"
  shows "state_ok (parse_signal_line line st)"
proof (cases "js_match signal_re line")
  case None
  then show ?thesis using assms by (simp add: parse_signal_line_def)
next
  case (Some cs)
  from signal_re_sound [OF Some] obtain x ws str where
    g: "cs 1 = Some (x # ws)" "isNameStart x" "\<forall>c\<in>set ws. isWord c"
       "cs 2 = Some str" "str \<noteq> []" "\<forall>c\<in>set str. isState c"
    and d: "case cs 3 of None \<Rightarrow> True
            | Some d \<Rightarrow> d \<noteq> [] \<and> (\<forall>c\<in>set d. notQuote c) \<and> set d \<subseteq> set line"
    by blast
  let ?sg = "set_description (cs 3) (fst (createSignal (x # ws) (Some str) (pworld st)))"
  have "canonical_signal ?sg"
    using g d assms(2)
    by (auto simp: canonical_signal_def set_description_def createSignal_fields split: option.splits)
  moreover have "parse_signal_line line st =
      st\<lparr>doc_signals := doc_signals st @ [?sg],
         pworld := snd (createSignal (x # ws) (Some str) (pworld st))\<rparr>"
    using Some g by (simp add: parse_signal_line_def groups2_def split_def Let_def)
  ultimately show ?thesis using assms(1) by (simp add: state_ok_def)
qed

lemma parse_line_ok:
  assumes "state_ok st" "10 \<notin> set raw"
  shows "state_ok (parse_line raw st)"
proof -
  have "10 \<notin> set (trim raw)" using assms(2) trim_subset by blast
  then show ?thesis
    using assms(1) by (simp add: parse_line_def Let_def parse_directive_ok parse_signal_line_ok)
qed

lemma fold_parse_line_ok:
  "state_ok st \<Longrightarrow> \<forall>l\<in>set ls. 10 \<notin> set l \<Longrightarrow> state_ok (fold parse_line ls st)"
  by (induction ls arbitrary: st) (simp_all add: parse_line_ok)

section \<open>Mutation helpers\<close>

text \<open>
  Claim C10, as amended: \<open>addSignal\<close>, \<open>updateSignal\<close>, \<open>removeSignal\<close> and \<open>updateTimeConfig\<close>
  return a document with the \<open>created\<close> timestamp of their input. \<open>updateMetadata\<close> spreads its
  \<open>updates\<close> over the metadata, so it returns the input's \<open>created\<close> when the updates have no
  \<open>created\<close> key and the updates' \<open>created\<close> when they have one.
\<close>

theorem mutation_helpers_created:
  "created (metadata (fst (addSignal doc signal w))) = created (metadata doc)
   \<and> created (metadata (fst (updateSignal doc signalId su w))) = created (metadata doc)
   \<and> created (metadata (fst (removeSignal doc signalId w))) = created (metadata doc)
   \<and> created (metadata (fst (updateTimeConfig doc tu w))) = created (metadata doc)
   \<and> created (metadata (fst (updateMetadata doc mu w)))
       = (case pm_created mu of None \<Rightarrow> created (metadata doc) | Some t \<Rightarrow> t)"
  by (simp add: addSignal_def updateSignal_def removeSignal_def updateTimeConfig_def
        updateMetadata_def spreadMetadata_def spread_def split_def Let_def)

text \<open>
  Claim C10 as stated fails: \<open>Partial<DocumentMetadata>\<close> admits a \<open>created\<close> key, and
  \<open>updateMetadata\<close> with \<open>created\<close> set to the epoch on a document created at 1000 ms returns
  a document created at the epoch.
\<close>

theorem updateMetadata_changes_created:
  "created (metadata (fst (updateMetadata (fst (createDocument None example_world))
      \<lparr>pm_title = None, pm_description = None, pm_author = None, pm_created = Some 0,
       pm_modified = None, pm_tags = None\<rparr> example_world)))
   \<noteq> created (metadata (fst (createDocument None example_world)))"
  by (simp add: updateMetadata_def spreadMetadata_def spread_def split_def Let_def
        createDocument_def Date_now_def generateId_def example_world_def example_clock_def)

text \<open>An instance of the amended claim: updating the title alone keeps \<open>created\<close>.\<close>

theorem mutation_helpers_created_witness:
  "created (metadata (fst (updateMetadata (fst (createDocument None example_world))
      \<lparr>pm_title = Some (js ''T''), pm_description = None, pm_author = None, pm_created = None,
       pm_modified = None, pm_tags = None\<rparr> example_world))) = 1000
   \<and> created (metadata (fst (createDocument None example_world))) = 1000"
  using mutation_helpers_created [of "fst (createDocument None example_world)" _ example_world
      _ _ _ "\<lparr>pm_title = Some (js ''T''), pm_description = None, pm_author = None,
               pm_created = None, pm_modified = None, pm_tags = None\<rparr>"]
  by (simp add: createDocument_def Date_now_def generateId_def example_world_def
        example_clock_def split_def Let_def)

section \<open>The error codes of the validator\<close>

lemma states_re_match:
  assumes "str \<noteq> []" "\<forall>c\<in>set str. isState c"
  shows "js_match states_re str = Some Map.empty"
proof -
  from assms obtain x xs where "str = x # xs" "isState x" "\<forall>c\<in>set xs. isState c"
    by (cases str) auto
  then show ?thesis
    unfolding js_match_def states_re_def
    by (simp add: seq_plus [OF rejects_Eos] eos_match dropWhile_all del: rmatch.simps)
qed

text \<open>The states of a line that matches the signal pattern always pass the test on the
  state characters, so the validator's error codes are \<open>INVALID_DIRECTIVE\<close> and
  \<open>INVALID_SIGNAL\<close> only: no text gets \<open>INVALID_STATE\<close>, \<open>DUPLICATE_NAME\<close> or \<open>INVALID_NAME\<close>.\<close>

lemma validate_signal_line_codes:
  assumes "known_codes (fst acc)"
  shows "known_codes (fst (validate_signal_line n line acc))"
proof (cases "js_match signal_re line")
  case None
  then show ?thesis
    using assms by (simp add: validate_signal_line_def known_codes_def mk_error_def)
next
  case (Some cs)
  from signal_re_sound [OF Some] obtain x ws str where
    g: "cs 1 = Some (x # ws)" "cs 2 = Some str" "str \<noteq> []" "\<forall>c\<in>set str. isState c"
    by blast
  then have "js_match states_re str = Some Map.empty" by (simp add: states_re_match)
  then show ?thesis
    using Some g assms by (simp add: validate_signal_line_def groups2_def)
qed

lemma validate_line_codes:
  "known_codes (fst acc) \<Longrightarrow> known_codes (fst (validate_line n raw acc))"
  by (simp add: validate_line_def Let_def validate_signal_line_codes)
     (simp add: known_codes_def mk_error_def)

lemma validate_loop_codes:
  "known_codes (fst acc) \<Longrightarrow> known_codes (fst (validate_loop i ls acc))"
  by (induction ls arbitrary: i acc) (simp_all add: validate_line_codes)

lemma validate_error_codes:
  "e \<in> set (errors (validate text)) \<Longrightarrow>
   err_code e = js ''INVALID_DIRECTIVE'' \<or> err_code e = js ''INVALID_SIGNAL''"
  using validate_loop_codes [of "([], [])" 0 "split_nl text"]
  by (simp add: validate_def known_codes_def split_def Let_def)

lemma validate_never_reports:
  "e \<in> set (errors (validate text)) \<Longrightarrow>
   err_code e \<noteq> js ''INVALID_STATE'' \<and> err_code e \<noteq> js ''DUPLICATE_NAME''
   \<and> err_code e \<noteq> js ''INVALID_NAME''"
  using validate_error_codes [of e "text"] by (auto simp: js_def)

section \<open>The validator and the parser on the examples of the specification\<close>

lemmas regex_defs =
  js_match_def Plus_def directive_re_def marker_re_def signal_head_def signal_re_def
  signal_prefix_re_def states_re_def

lemmas validate_defs =
  validate_def validate_line_def validate_signal_line_def lengths_line_def length_warnings_def
  groups2_def trim_def js_def

lemmas parse_defs =
  parse_def initial_state_def parse_line_def parse_directive_def parse_marker_def
  parse_signal_line_def set_description_def set_unit_def set_markers_def set_totalSteps_def
  groups2_def trim_def js_def createDocument_def createSignal_def generateId_def Date_now_def
  default_title_def signal_length_def parseSignalStates_def split_def

text \<open>
  Claim C3: \<open>validate("DATA: 01X20101")\<close> reports an error with code \<open>INVALID_STATE\<close>. The
  code does not: the signal pattern stops at the \<open>2\<close>, the match fails as a whole, and the
  only error reported is \<open>INVALID_SIGNAL\<close>; the test that would report \<open>INVALID_STATE\<close> is
  behind that match and never fails (\<open>validate_never_reports\<close>).
\<close>

theorem validate_invalid_state_example:
  "validate (js ''DATA: 01X20101'') =
     \<lparr>valid = False,
      errors = [mk_error 1 ''Invalid signal syntax. Expected format: NAME: 01010101''
                  ''INVALID_SIGNAL''],
      warnings = []\<rparr>"
  by (simp add: validate_defs regex_defs char_class_defs)

text \<open>
  Claim C4: a text with the same signal name on two lines gets a \<open>DUPLICATE_NAME\<close> error.
  The code does not report one: \<open>validate("CLK: 0101\nCLK: 1010")\<close> is valid, with no error
  and no warning, and no text at all gets this code (\<open>validate_never_reports\<close>).
\<close>

theorem validate_duplicate_example:
  "validate (js ''CLK: 0101'' @ 10 # js ''CLK: 1010'')
     = \<lparr>valid = True, errors = [], warnings = []\<rparr>"
  by (simp add: validate_defs regex_defs char_class_defs)

text \<open>
  Claim C5: a signal line followed by a trailing comment is classified and parsed as a
  signal. The code strips no trailing comment: on \<open>"CLK: 0101  # clock"\<close> the parser finds
  no signal and the validator reports \<open>INVALID_SIGNAL\<close>.
\<close>

theorem trailing_comment_example:
  "signals (fst (parse (js ''CLK: 0101  # clock'') w)) = []
   \<and> validate (js ''CLK: 0101  # clock'') =
     \<lparr>valid = False,
      errors = [mk_error 1 ''Invalid signal syntax. Expected format: NAME: 01010101''
                  ''INVALID_SIGNAL''],
      warnings = []\<rparr>"
  by (simp add: validate_defs parse_defs regex_defs char_class_defs)

section \<open>Total steps\<close>

lemma foldl_duration:
  "foldl (\<lambda>sum state. sum + duration state) a xs = a + sum_list (map duration xs)"
  by (induction xs arbitrary: a) simp_all

lemma signal_length_sum: "signal_length s = sum_list (map duration (sig_states s))"
  by (simp add: signal_length_def foldl_duration)

lemma foldl_max_Max: "foldl max l ls = Max (set (l # ls))"
proof -
  have "foldl max l ls = fold max ls l"
    by (simp add: foldl_conv_fold max.commute)
  then show ?thesis by (simp only: Max.set_eq_fold)
qed

lemma set_totalSteps_Max:
  "sigs \<noteq> [] \<Longrightarrow> totalSteps (set_totalSteps sigs tc)
     = Max ((\<lambda>s. sum_list (map duration (sig_states s))) ` set sigs)"
proof -
  assume "sigs \<noteq> []"
  then obtain l ls where m: "map signal_length sigs = l # ls" by (cases sigs) auto
  have "set (l # ls) = (\<lambda>s. sum_list (map duration (sig_states s))) ` set sigs"
    unfolding m [symmetric] by (auto simp: signal_length_sum)
  then show ?thesis
    by (simp add: set_totalSteps_def m foldl_max_Max del: set_simps)
qed

lemma parse_final_state:
  "signals (fst (parse text w)) = doc_signals (final_state text w)"
  "timeConfig (fst (parse text w)) =
     set_totalSteps (doc_signals (final_state text w))
       (set_markers (markers (final_state text w))
          (set_unit (currentUnit (final_state text w)) (timeConfig (fst (createDocument None w)))))"
  "title (metadata (fst (parse text w))) = currentTitle (final_state text w)"
  "md_description (metadata (fst (parse text w))) = None"
  by (simp_all add: parse_def final_state_def split_def Let_def createDocument_def)

lemma totalSteps_before:
  "totalSteps (set_markers ms (set_unit u (timeConfig (fst (createDocument None w))))) = 8"
  by (simp add: set_markers_def set_unit_def createDocument_def split_def Let_def
        split: option.splits)

text \<open>
  Claim C1, as amended: for every input text, when the parsed document has at least one
  signal its \<open>totalSteps\<close> is the maximum over its signals of the sum of the run durations;
  when it has no signal, \<open>totalSteps\<close> is the 8 that \<open>createDocument\<close> sets.
\<close>

theorem parse_totalSteps:
  "(signals (fst (parse text w)) \<noteq> [] \<longrightarrow>
      totalSteps (timeConfig (fst (parse text w)))
        = Max ((\<lambda>s. sum_list (map duration (sig_states s))) ` set (signals (fst (parse text w)))))
   \<and> (signals (fst (parse text w)) = [] \<longrightarrow>
      totalSteps (timeConfig (fst (parse text w))) = 8)"
proof (cases "doc_signals (final_state text w) = []")
  case True
  then show ?thesis
    by (simp add: parse_final_state set_totalSteps_def totalSteps_before)
next
  case False
  then show ?thesis
    by (simp add: parse_final_state set_totalSteps_Max)
qed

text \<open>The sibling helper \<open>calculateTotalSteps\<close> agrees with the parser when there is a signal,
  and gives 0 where the parser leaves the default.\<close>

lemma parse_totalSteps_calculateTotalSteps:
  "totalSteps (timeConfig (fst (parse text w)))
     = (if signals (fst (parse text w)) = [] then 8 else calculateTotalSteps (fst (parse text w)))"
proof (cases "doc_signals (final_state text w)")
  case Nil
  then show ?thesis
    by (simp add: parse_final_state set_totalSteps_def totalSteps_before)
next
  case (Cons sg sgs)
  then show ?thesis
    by (simp add: parse_final_state set_totalSteps_def calculateTotalSteps_def)
qed

text \<open>
  Claim C1 as stated fails on the empty text: there is no signal and \<open>totalSteps\<close> is not 0.
\<close>

theorem parse_empty_text_totalSteps:
  "signals (fst (parse [] example_world)) = []
   \<and> totalSteps (timeConfig (fst (parse [] example_world))) \<noteq> 0"
  by (simp add: parse_defs)

text \<open>Two instances: signals of lengths 4 and 3 give 4, and the empty text gives 8.\<close>

theorem parse_totalSteps_witness:
  "signals (fst (parse (js ''CLK: 0011'' @ 10 # js ''D: 011'') example_world)) \<noteq> []
   \<and> totalSteps (timeConfig (fst (parse (js ''CLK: 0011'' @ 10 # js ''D: 011'') example_world))) = 4
   \<and> signals (fst (parse [] example_world)) = []
   \<and> totalSteps (timeConfig (fst (parse [] example_world))) = 8"
  using parse_totalSteps [of "js ''CLK: 0011'' @ 10 # js ''D: 011''" example_world]
    parse_totalSteps [of "[]" example_world]
  by (simp add: parse_defs regex_defs char_class_defs)

section \<open>Compression\<close>

lemma compressed_snoc:
  "compressed (acc @ [r]) \<longleftrightarrow>
     compressed acc \<and> 1 \<le> duration r \<and> (acc = [] \<or> svalue (last acc) \<noteq> svalue r)"
  by (induction acc rule: compressed.induct) auto

lemma pss_loop_compressed:
  "compressed acc \<Longrightarrow> 1 \<le> d \<Longrightarrow> acc = [] \<or> svalue (last acc) \<noteq> cur \<Longrightarrow>
   compressed (pss_loop vs cur d acc)"
  by (induction vs arbitrary: cur d acc) (auto simp: compressed_snoc)

lemma compressed_parseSignalStates: "compressed (parseSignalStates s)"
  by (simp add: parseSignalStates_def pss_loop_compressed)

lemma compressed_createSignal:
  "compressed (sig_states (set_description d (fst (createSignal name states w))))"
  by (simp add: createSignal_def set_description_def split_def Let_def
        compressed_parseSignalStates split: option.splits)

lemma parse_line_compressed:
  assumes "\<forall>sg\<in>set (doc_signals st). compressed (sig_states sg)"
  shows "\<forall>sg\<in>set (doc_signals (parse_line raw st)). compressed (sig_states sg)"
  using assms
  by (auto simp: parse_line_def Let_def parse_signal_line_def split_def compressed_createSignal
        parse_directive_def parse_marker_def split: option.splits)

lemma fold_parse_line_compressed:
  "\<forall>sg\<in>set (doc_signals st). compressed (sig_states sg) \<Longrightarrow>
   \<forall>sg\<in>set (doc_signals (fold parse_line ls st)). compressed (sig_states sg)"
proof (induction ls arbitrary: st)
  case Nil
  then show ?case by simp
next
  case (Cons l ls)
  from Cons.prems have "\<forall>sg\<in>set (doc_signals (parse_line l st)). compressed (sig_states sg)"
    by (rule parse_line_compressed)
  then show ?case using Cons.IH by simp
qed

text \<open>
  Claim C8: for every input text and every signal of the parsed document, the run list is
  maximally compressed: every run lasts at least one step and no two adjacent runs have
  the same value.
\<close>

theorem parse_runs_compressed:
  "s \<in> set (signals (fst (parse text w))) \<Longrightarrow> compressed (sig_states s)"
  using fold_parse_line_compressed
    [of "initial_state (fst (createDocument None w)) (snd (createDocument None w))" "split_nl text"]
  by (simp add: parse_final_state final_state_def initial_state_def createDocument_def split_def
        Let_def)

text \<open>An instance: the signal of \<open>"CLK: 0011"\<close> has the runs (0, 2), (1, 2).\<close>

theorem parse_runs_compressed_witness:
  "\<lparr>sig_id = js ''1002-2'', sig_name = js ''CLK'',
     sig_states = [\<lparr>svalue = Some 48, duration = 2\<rparr>, \<lparr>svalue = Some 49, duration = 2\<rparr>],
     sig_style = None, sig_description = None\<rparr>
     \<in> set (signals (fst (parse (js ''CLK: 0011'') example_world)))
   \<and> compressed [\<lparr>svalue = Some 48, duration = 2\<rparr>, \<lparr>svalue = Some 49, duration = 2\<rparr>]"
  using parse_runs_compressed
    [of "\<lparr>sig_id = js ''1002-2'', sig_name = js ''CLK'',
          sig_states = [\<lparr>svalue = Some 48, duration = 2\<rparr>, \<lparr>svalue = Some 49, duration = 2\<rparr>],
          sig_style = None, sig_description = None\<rparr>" "js ''CLK: 0011''" example_world]
  by (simp add: parse_defs regex_defs char_class_defs example_world_def example_clock_def
        show_nat.simps)

section \<open>Lines that the patterns do not match\<close>

lemma fold_filter_unmatched:
  "fold parse_line (filter (\<lambda>l. \<not> unmatched l) ls) st = fold parse_line ls st"
  by (induction ls arbitrary: st) (simp_all add: parse_line_unmatched)

lemma parse_line_blank: "parse_line [] st = st"
  by (simp add: parse_line_def trim_Nil)

lemma fold_split_join:
  assumes "\<forall>l\<in>set ls. 10 \<notin> set l"
  shows "fold parse_line (split_nl (join_nl ls)) st = fold parse_line ls st"
proof (cases "ls = []")
  case True
  then show ?thesis by (simp add: parse_line_blank)
next
  case False
  then show ?thesis using assms by (simp add: split_join)
qed

text \<open>The result of \<open>parse\<close> on a text is its result on the text without its unmatched
  lines.\<close>

lemma parse_without_unmatched:
  "parse (join_nl (filter (\<lambda>l. \<not> unmatched l) (split_nl text))) w = parse text w"
proof -
  have "\<forall>l\<in>set (filter (\<lambda>l. \<not> unmatched l) (split_nl text)). 10 \<notin> set l"
    using split_nl_no_nl by auto
  then have "fold parse_line (split_nl (join_nl (filter (\<lambda>l. \<not> unmatched l) (split_nl text)))) st
      = fold parse_line (split_nl text) st" for st
    by (simp add: fold_split_join fold_filter_unmatched)
  then show ?thesis by (simp add: parse_def)
qed

section \<open>Serializing and parsing again\<close>

lemma class_no_nl:
  "isNameStart c \<Longrightarrow> c \<noteq> 10" "isWord c \<Longrightarrow> c \<noteq> 10" "isState c \<Longrightarrow> c \<noteq> 10"
  "isNameStart c \<Longrightarrow> c \<noteq> 35" "isNameStart c \<Longrightarrow> c \<noteq> 64"
  by (auto simp: char_class_defs)

lemma no_nl_class: "\<forall>c\<in>set xs. isWord c \<Longrightarrow> 10 \<notin> set xs" "\<forall>c\<in>set ys. isState c \<Longrightarrow> 10 \<notin> set ys"
  using class_no_nl by blast+

text \<open>The line of a canonical signal is parsed into a signal with the same view.\<close>

lemma canonical_line_parsed:
  assumes nm: "isNameStart x" "\<forall>c\<in>set ws. isWord c"
    and st: "str \<noteq> []" "\<forall>c\<in>set str. isState c"
    and l: "l = (x # ws) @ 58 # 32 # str @ tail"
    and m: "js_match signal_re l = Some cs" "cs 1 = Some (x # ws)" "cs 2 = Some str"
    and e: "tail = [] \<or> last tail = 34"
  shows "doc_signals (parse_line l s0) = doc_signals s0 @
           [set_description (cs 3) (fst (createSignal (x # ws) (Some str) (pworld s0)))]"
proof -
  have "last l = (if tail = [] then last str else last tail)"
    using l st(1) by simp
  then have "\<not> isSpace (last l)"
    using e st by (auto simp: last_in_set)
  then have "trim l = l"
    using l nm(1) by (intro trim_id) simp_all
  moreover have "\<not> startsWith l 35" "\<not> startsWith l 64" "l \<noteq> []"
    using l nm(1) class_no_nl(4,5) by auto
  ultimately show ?thesis
    using m by (simp add: parse_line_def parse_signal_line_def groups2_def split_def Let_def)
qed

lemma serializeSignal_canonical:
  assumes "canonical_signal sg"
  shows "\<exists>l. serializeSignal sg = Inr l \<and> 10 \<notin> set l
           \<and> (\<forall>s0. \<exists>sg'. doc_signals (parse_line l s0) = doc_signals s0 @ [sg']
                  \<and> signal_view sg' = signal_view sg)"
proof -
  from assms obtain x ws str where
    nm: "sig_name sg = x # ws" "isNameStart x" "\<forall>c\<in>set ws. isWord c"
    and st: "str \<noteq> []" "\<forall>c\<in>set str. isState c" "sig_states sg = parseSignalStates str"
    and ds: "case sig_description sg of None \<Rightarrow> True
             | Some d \<Rightarrow> d \<noteq> [] \<and> (\<forall>c\<in>set d. notQuote c) \<and> 10 \<notin> set d"
    unfolding canonical_signal_def by blast
  have x10: "x \<noteq> 10" using nm(2) by (rule class_no_nl)
  show ?thesis
  proof (cases "sig_description sg")
    case None
    let ?l = "(x # ws) @ 58 # 32 # str"
    have m: "js_match signal_re ?l = Some [1 \<mapsto> x # ws, 2 \<mapsto> str]"
      using nm(2,3) st(1,2) by (rule signal_re_canonical)
    have "serializeSignal sg = Inr ?l"
      using nm(1) st None by (simp add: serializeSignal_def decode_encode_nonempty)
    moreover have "10 \<notin> set ?l"
      using x10 no_nl_class(1) [OF nm(3)] no_nl_class(2) [OF st(2)] by simp
    moreover have "doc_signals (parse_line ?l s0) = doc_signals s0 @
        [set_description (([1 \<mapsto> x # ws, 2 \<mapsto> str] :: caps) 3)
           (fst (createSignal (x # ws) (Some str) (pworld s0)))]" for s0
      by (rule canonical_line_parsed [OF nm(2,3) st(1,2) _ m, where tail = "[]"]) simp_all
    moreover have "signal_view (set_description (([1 \<mapsto> x # ws, 2 \<mapsto> str] :: caps) 3)
           (fst (createSignal (x # ws) (Some str) (pworld s0)))) = signal_view sg" for s0
      using nm(1) st(1,3) None
      by (simp add: signal_view_def set_description_def createSignal_fields)
    ultimately show ?thesis by metis
  next
    case (Some d)
    with ds have d: "d \<noteq> []" "\<forall>c\<in>set d. notQuote c" "10 \<notin> set d" by simp_all
    let ?l = "(x # ws) @ 58 # 32 # str @ 32 # 34 # d @ [34]"
    have m: "js_match signal_re ?l = Some [1 \<mapsto> x # ws, 2 \<mapsto> str, 3 \<mapsto> d]"
      using nm(2,3) st(1,2) d(1,2) by (rule signal_re_canonical_described)
    have "serializeSignal sg = Inr ?l"
      using nm(1) st Some d(1) by (simp add: serializeSignal_def decode_encode_nonempty)
    moreover have "10 \<notin> set ?l"
      using x10 no_nl_class(1) [OF nm(3)] no_nl_class(2) [OF st(2)] d(3) by simp
    moreover have "doc_signals (parse_line ?l s0) = doc_signals s0 @
        [set_description (([1 \<mapsto> x # ws, 2 \<mapsto> str, 3 \<mapsto> d] :: caps) 3)
           (fst (createSignal (x # ws) (Some str) (pworld s0)))]" for s0
      by (rule canonical_line_parsed [OF nm(2,3) st(1,2) _ m, where tail = "32 # 34 # d @ [34]"])
         simp_all
    moreover have "signal_view (set_description (([1 \<mapsto> x # ws, 2 \<mapsto> str, 3 \<mapsto> d] :: caps) 3)
           (fst (createSignal (x # ws) (Some str) (pworld s0)))) = signal_view sg" for s0
      using nm(1) st(1,3) Some d(1)
      by (simp add: signal_view_def set_description_def createSignal_fields)
    ultimately show ?thesis by metis
  qed
qed

lemma serialize_signals_canonical:
  assumes "\<forall>sg\<in>set sgs. canonical_signal sg"
  shows "\<exists>ls. serialize_signals sgs = Inr ls \<and> (\<forall>l\<in>set ls. 10 \<notin> set l)
           \<and> (ls = [] \<longleftrightarrow> sgs = [])
           \<and> (\<forall>s0. map signal_view (doc_signals (fold parse_line ls s0))
                    = map signal_view (doc_signals s0) @ map signal_view sgs)"
  using assms
proof (induction sgs)
  case Nil
  then show ?case by simp
next
  case (Cons sg sgs)
  then obtain ls where ls: "serialize_signals sgs = Inr ls" "\<forall>l\<in>set ls. 10 \<notin> set l"
    "\<And>s0. map signal_view (doc_signals (fold parse_line ls s0))
             = map signal_view (doc_signals s0) @ map signal_view sgs"
    by auto
  from Cons.prems serializeSignal_canonical [of sg] obtain l where
    l: "serializeSignal sg = Inr l" "10 \<notin> set l"
    "\<And>s0. \<exists>sg'. doc_signals (parse_line l s0) = doc_signals s0 @ [sg']
             \<and> signal_view sg' = signal_view sg"
    by auto
  have "map signal_view (doc_signals (fold parse_line (l # ls) s0))
          = map signal_view (doc_signals s0) @ map signal_view (sg # sgs)" for s0
  proof -
    from l(3) [of s0] obtain sg' where
      "doc_signals (parse_line l s0) = doc_signals s0 @ [sg']" "signal_view sg' = signal_view sg"
      by blast
    then show ?thesis using ls(3) [of "parse_line l s0"] by simp
  qed
  with ls(1,2) l(1,2) show ?case by simp
qed


lemma show_nat_no_nl: "10 \<notin> set (show_nat n)"
proof (induction n rule: show_nat.induct)
  case (1 n)
  show ?case
  proof (cases "n < 10")
    case True
    then show ?thesis by (subst show_nat.simps) simp
  next
    case False
    with 1 show ?thesis by (subst show_nat.simps) simp
  qed
qed

lemma opt_line_shape:
  assumes "case v of None \<Rightarrow> True | Some x \<Rightarrow> 10 \<notin> set x"
    and "10 \<notin> set (js p)" "startsWith (js p) 64"
  shows "\<forall>h\<in>set (opt_line p v). 10 \<notin> set h \<and> (h = [] \<or> startsWith h 64)"
  using assms by (cases "js p") (auto simp: opt_line_def split: option.splits)

lemma marker_line_shape:
  "10 \<notin> set (label m) \<Longrightarrow> 10 \<notin> set (marker_line m) \<and> startsWith (marker_line m) 64"
  by (simp add: marker_line_def js_def show_nat_no_nl)

lemma header_lines_shape:
  assumes "10 \<notin> set (title (metadata doc))"
    and "case md_description (metadata doc) of None \<Rightarrow> True | Some x \<Rightarrow> 10 \<notin> set x"
    and "case tc_unit (timeConfig doc) of None \<Rightarrow> True | Some x \<Rightarrow> 10 \<notin> set x"
    and "case tc_markers (timeConfig doc) of None \<Rightarrow> True
         | Some ms \<Rightarrow> \<forall>m\<in>set ms. 10 \<notin> set (label m)"
  shows "\<forall>h\<in>set (header_lines doc). 10 \<notin> set h \<and> (h = [] \<or> startsWith h 64)"
proof -
  have t: "\<forall>h\<in>set (if title (metadata doc) \<noteq> [] \<and> title (metadata doc) \<noteq> js ''Untitled Waveform''
             then [js ''@title: '' @ title (metadata doc)] else []).
           10 \<notin> set h \<and> (h = [] \<or> startsWith h 64)"
    using assms(1) by (simp add: js_def)
  have d: "\<forall>h\<in>set (opt_line ''@description: '' (md_description (metadata doc))).
           10 \<notin> set h \<and> (h = [] \<or> startsWith h 64)"
    by (rule opt_line_shape [OF assms(2)]) (simp_all add: js_def)
  have u: "\<forall>h\<in>set (opt_line ''@unit: '' (tc_unit (timeConfig doc))).
           10 \<notin> set h \<and> (h = [] \<or> startsWith h 64)"
    by (rule opt_line_shape [OF assms(3)]) (simp_all add: js_def)
  have m: "\<forall>h\<in>set (case tc_markers (timeConfig doc) of None \<Rightarrow> []
                     | Some ms \<Rightarrow> if length ms > 0 then map marker_line ms else []).
           10 \<notin> set h \<and> (h = [] \<or> startsWith h 64)"
    using assms(4) by (auto simp: marker_line_shape split: option.splits)
  define body where "body =
      (if title (metadata doc) \<noteq> [] \<and> title (metadata doc) \<noteq> js ''Untitled Waveform''
       then [js ''@title: '' @ title (metadata doc)] else [])
      @ opt_line ''@description: '' (md_description (metadata doc))
      @ opt_line ''@unit: '' (tc_unit (timeConfig doc))
      @ (case tc_markers (timeConfig doc) of None \<Rightarrow> []
         | Some ms \<Rightarrow> if length ms > 0 then map marker_line ms else [])"
  have b: "\<forall>h\<in>set body. 10 \<notin> set h \<and> (h = [] \<or> startsWith h 64)"
    unfolding body_def set_append ball_Un by (intro conjI t d u m)
  have "header_lines doc = (if length body > 0 then body @ [[]] else body)"
    by (simp add: header_lines_def body_def Let_def)
  then show ?thesis using b by auto
qed

lemma fold_header:
  "\<forall>h\<in>set hs. h = [] \<or> startsWith h 64 \<Longrightarrow>
   doc_signals (fold parse_line hs st) = doc_signals st"
  by (induction hs arbitrary: st) (simp_all add: parse_line_header)

lemma final_state_ok: "state_ok (final_state text w)"
proof -
  have "state_ok (initial_state (fst (createDocument None w)) (snd (createDocument None w)))"
    by (simp add: state_ok_def initial_state_def createDocument_def split_def Let_def js_def)
  then show ?thesis
    unfolding final_state_def using split_nl_no_nl by (intro fold_parse_line_ok) auto
qed

lemma parse_header_shape:
  "\<forall>h\<in>set (header_lines (fst (parse text w))). 10 \<notin> set h \<and> (h = [] \<or> startsWith h 64)"
proof (rule header_lines_shape)
  note ok = final_state_ok [of "text" w, unfolded state_ok_def]
  show "10 \<notin> set (title (metadata (fst (parse text w))))"
    using ok by (simp add: parse_final_state)
  show "case md_description (metadata (fst (parse text w))) of None \<Rightarrow> True
        | Some x \<Rightarrow> 10 \<notin> set x"
    by (simp add: parse_final_state)
  show "case tc_unit (timeConfig (fst (parse text w))) of None \<Rightarrow> True | Some x \<Rightarrow> 10 \<notin> set x"
    using ok
    by (auto simp: parse_final_state set_totalSteps_def set_markers_def set_unit_def
          createDocument_def split_def Let_def split: option.splits list.splits)
  show "case tc_markers (timeConfig (fst (parse text w))) of None \<Rightarrow> True
        | Some ms \<Rightarrow> \<forall>m\<in>set ms. 10 \<notin> set (label m)"
    using ok
    by (auto simp: parse_final_state set_totalSteps_def set_markers_def set_unit_def
          createDocument_def split_def Let_def split: option.splits list.splits)
qed

lemma initial_signals:
  "doc_signals (initial_state (fst (createDocument None w)) (snd (createDocument None w))) = []"
  by (simp add: initial_state_def createDocument_def split_def Let_def)

lemma reparse_views:
  "\<exists>out. serialize (fst (parse text w)) = Inr out
     \<and> map signal_view (signals (fst (parse out w'))) = map signal_view (signals (fst (parse text w)))"
proof -
  let ?d = "fst (parse text w)"
  have "\<forall>sg\<in>set (signals ?d). canonical_signal sg"
    using final_state_ok [of "text" w] by (simp add: parse_final_state state_ok_def)
  from serialize_signals_canonical [OF this] obtain ls where
    ls: "serialize_signals (signals ?d) = Inr ls" "\<forall>l\<in>set ls. 10 \<notin> set l"
    "\<And>s0. map signal_view (doc_signals (fold parse_line ls s0))
             = map signal_view (doc_signals s0) @ map signal_view (signals ?d)"
    by blast
  let ?out = "join_nl (header_lines ?d @ ls)"
  let ?s0 = "initial_state (fst (createDocument None w')) (snd (createDocument None w'))"
  have out: "serialize ?d = Inr ?out"
    using ls(1) by (simp add: serialize_def)
  have hs: "\<forall>h\<in>set (header_lines ?d). 10 \<notin> set h \<and> (h = [] \<or> startsWith h 64)"
    by (rule parse_header_shape)
  then have "\<forall>l\<in>set (header_lines ?d @ ls). 10 \<notin> set l"
    using ls(2) by auto
  then have "final_state ?out w' = fold parse_line (header_lines ?d @ ls) ?s0"
    unfolding final_state_def by (rule fold_split_join)
  then have "map signal_view (doc_signals (final_state ?out w'))
      = map signal_view (doc_signals (fold parse_line (header_lines ?d) ?s0))
        @ map signal_view (signals ?d)"
    using ls(3) by simp
  also have "doc_signals (fold parse_line (header_lines ?d) ?s0) = doc_signals ?s0"
    using hs by (intro fold_header) blast
  finally have "map signal_view (signals (fst (parse ?out w'))) = map signal_view (signals ?d)"
    by (simp add: parse_final_state(1) initial_signals)
  with out show ?thesis by blast
qed

lemma map_via_view:
  assumes "map signal_view xs = map signal_view ys" and h: "\<And>s. f s = g (signal_view s)"
  shows "map f xs = map f ys"
proof -
  have "map f zs = map g (map signal_view zs)" for zs
    using h by (induction zs) simp_all
  then show ?thesis using assms(1) by metis
qed

text \<open>
  Claim C7: for every document that \<open>parse\<close> returns, \<open>serialize\<close> succeeds, and parsing its
  output again (at any later time, with any state of the id generator) gives a document
  with the same signal names in the same order, the same decoded state string for each
  signal and the same descriptions.
\<close>

theorem text_round_trip:
  "\<exists>out. serialize (fst (parse text w)) = Inr out
     \<and> map sig_name (signals (fst (parse out w')))
         = map sig_name (signals (fst (parse text w)))
     \<and> map (\<lambda>s. serializeSignalStates (sig_states s)) (signals (fst (parse out w')))
         = map (\<lambda>s. serializeSignalStates (sig_states s)) (signals (fst (parse text w)))
     \<and> map sig_description (signals (fst (parse out w')))
         = map sig_description (signals (fst (parse text w)))"
proof -
  from reparse_views [of "text" w w'] obtain out where
    out: "serialize (fst (parse text w)) = Inr out"
    and v: "map signal_view (signals (fst (parse out w')))
              = map signal_view (signals (fst (parse text w)))"
    by blast
  note eq = map_via_view [OF v]
  have "map sig_name (signals (fst (parse out w'))) = map sig_name (signals (fst (parse text w)))"
    by (rule eq [where g = fst]) (simp add: signal_view_def)
  moreover have "map (\<lambda>s. serializeSignalStates (sig_states s)) (signals (fst (parse out w')))
         = map (\<lambda>s. serializeSignalStates (sig_states s)) (signals (fst (parse text w)))"
    by (rule eq [where g = "\<lambda>v. serializeSignalStates (fst (snd v))"]) (simp add: signal_view_def)
  moreover have "map sig_description (signals (fst (parse out w')))
         = map sig_description (signals (fst (parse text w)))"
    by (rule eq [where g = "\<lambda>v. snd (snd v)"]) (simp add: signal_view_def)
  ultimately show ?thesis using out by blast
qed


lemmas serialize_defs =
  serialize_def header_lines_def opt_line_def marker_line_def serializeSignal_def

text \<open>An instance: the example of the specification serializes to itself.\<close>

theorem text_round_trip_witness:
  "serialize (fst (parse demo_text example_world)) = Inr demo_text
   \<and> map sig_name (signals (fst (parse demo_text example_world))) = [js ''CLK'']
   \<and> map (\<lambda>s. serializeSignalStates (sig_states s)) (signals (fst (parse demo_text example_world)))
        = [Inr (js ''0011'')]
   \<and> map sig_description (signals (fst (parse demo_text example_world))) = [Some (js ''Clock'')]"
proof -
  have d: "fst (parse demo_text example_world) =
      \<lparr>doc_id = js ''1001-1'',
       metadata = \<lparr>title = js ''Demo'', md_description = None, author = None, created = 1000,
                   modified = 1000, tags = None\<rparr>,
       signals = [\<lparr>sig_id = js ''1002-2'', sig_name = js ''CLK'',
                   sig_states = [\<lparr>svalue = Some 48, duration = 2\<rparr>,
                                 \<lparr>svalue = Some 49, duration = 2\<rparr>],
                   sig_style = None, sig_description = Some (js ''Clock'')\<rparr>],
       timeConfig = \<lparr>totalSteps = 4, stepWidth = 40, tc_unit = Some (js ''ns''),
                     tc_markers = Some [\<lparr>position = 1, label = js ''Mid'', marker_color = None\<rparr>],
                     showGrid = Some True\<rparr>,
       version = js ''1.0.0''\<rparr>"
    by (simp add: demo_text_def parse_defs regex_defs char_class_defs parseInt_def
          show_nat.simps Let_def example_world_def example_clock_def)
  have s: "serialize (fst (parse demo_text example_world)) = Inr demo_text"
    unfolding d by (simp add: demo_text_def serialize_defs js_def show_nat.simps numeral_2_eq_2)
  from text_round_trip [of demo_text example_world example_world] s show ?thesis
    by (simp add: d js_def numeral_2_eq_2)
qed

section \<open>What the parser keeps of each line\<close>

lemma directive_values_Cons:
  "directive_values name (l # ls) = directive_values name [l] @ directive_values name ls"
  by (simp add: directive_values_def split: option.splits)

lemma directive_values_Nil: "directive_values name [] = []"
  by (simp add: directive_values_def)

lemma directive_values_line:
  "directive_values name [raw] =
     (if startsWith (trim raw) 64
      then (case js_match directive_re (trim raw) of
              None \<Rightarrow> []
            | Some cs \<Rightarrow>
                (case groups2 cs of
                   None \<Rightarrow> []
                 | Some (n, v) \<Rightarrow> if n = js name then [v] else []))
      else [])"
  by (simp add: directive_values_def directive_of_line_def Let_def split: option.splits)

lemma directive_values_line_cases:
  "directive_values name [raw] = []
   \<or> (\<exists>cs n v. js_match directive_re (trim raw) = Some cs \<and> groups2 cs = Some (n, v)
         \<and> directive_values name [raw] = [v])"
  by (simp add: directive_values_line split: option.splits)

lemma directive_value_nonempty:
  "v \<in> set (directive_values name ls) \<Longrightarrow> v \<noteq> []"
proof (induction ls)
  case Nil
  then show ?case by (simp add: directive_values_def)
next
  case (Cons l ls)
  have "v \<noteq> []" if "v \<in> set (directive_values name [l])"
  proof -
    from that directive_values_line_cases [of name l] obtain cs n where
      "js_match directive_re (trim l) = Some cs" "groups2 cs = Some (n, v)"
      by auto
    then show ?thesis
      using directive_re_sound [of "trim l" cs] by (auto simp: groups2_Some)
  qed
  moreover have "v \<in> set (directive_values name [l]) \<or> v \<in> set (directive_values name ls)"
    using Cons.prems directive_values_Cons [of name l ls] by simp
  ultimately show ?case using Cons.IH by blast
qed

lemma parse_line_cases:
  "parse_line raw st =
     (if startsWith (trim raw) 64 then parse_directive (trim raw) st
      else if trim raw = [] \<or> startsWith (trim raw) 35 then st
      else parse_signal_line (trim raw) st)"
  by (cases "trim raw") (auto simp: parse_line_def Let_def)

lemma parse_signal_line_frame:
  "currentTitle (parse_signal_line line st) = currentTitle st"
  "currentUnit (parse_signal_line line st) = currentUnit st"
  "markers (parse_signal_line line st) = markers st"
  by (simp_all add: parse_signal_line_def split_def Let_def split: option.splits)

lemma parse_marker_frame:
  "currentTitle (parse_marker v st) = currentTitle st"
  "currentUnit (parse_marker v st) = currentUnit st"
  "markers (parse_marker v st) = markers st @ List.map_filter marker_of_value [v]"
  by (simp_all add: parse_marker_def marker_of_value_def split: option.splits)

lemma distinct_names:
  "js ''title'' \<noteq> js ''unit''" "js ''title'' \<noteq> js ''marker''" "js ''unit'' \<noteq> js ''marker''"
  by (simp_all add: js_def)

lemma parse_line_title:
  "currentTitle (parse_line raw st) = last (currentTitle st # directive_values ''title'' [raw])"
  by (simp add: parse_line_cases parse_signal_line_frame directive_values_line
        parse_directive_def parse_marker_frame distinct_names split: option.splits)

lemma parse_line_unit:
  "currentUnit (parse_line raw st)
     = (if directive_values ''unit'' [raw] = [] then currentUnit st
        else Some (last (directive_values ''unit'' [raw])))"
  using distinct_names
  by (simp add: parse_line_cases parse_signal_line_frame directive_values_line
        parse_directive_def parse_marker_frame split: option.splits)

lemma parse_line_markers:
  "markers (parse_line raw st)
     = markers st @ List.map_filter marker_of_value (directive_values ''marker'' [raw])"
  using distinct_names
  by (simp add: parse_line_cases parse_signal_line_frame directive_values_line
        parse_directive_def parse_marker_frame split: option.splits)

lemma signal_of_line_cases:
  "signal_of_line raw =
     (if startsWith (trim raw) 64 \<or> trim raw = [] \<or> startsWith (trim raw) 35 then None
      else (case js_match signal_re (trim raw) of
              None \<Rightarrow> None
            | Some cs \<Rightarrow>
                (case groups2 cs of
                   None \<Rightarrow> None
                 | Some (name, states) \<Rightarrow> Some (name, parseSignalStates states, cs 3))))"
  by (auto simp: signal_of_line_def Let_def)

lemma parse_line_signal:
  "map signal_view (doc_signals (parse_line raw st))
     = map signal_view (doc_signals st) @ List.map_filter signal_of_line [raw]"
proof (cases "js_match signal_re (trim raw)")
  case None
  then show ?thesis
    by (simp add: parse_line_cases signal_of_line_cases parse_directive_signals
          parse_signal_line_def)
next
  case (Some cs)
  from signal_re_sound [OF Some] obtain x ws str where
    g: "cs 1 = Some (x # ws)" "cs 2 = Some str" "str \<noteq> []"
    and d: "case cs 3 of None \<Rightarrow> True | Some d \<Rightarrow> d \<noteq> []"
    by (auto split: option.splits)
  have "signal_view (set_description (cs 3) (fst (createSignal (x # ws) (Some str) w')))
          = (x # ws, parseSignalStates str, cs 3)" for w'
    using g(3) d
    by (auto simp: signal_view_def set_description_def createSignal_fields split: option.splits)
  then show ?thesis
    using Some g
    by (simp add: parse_line_cases signal_of_line_cases parse_directive_signals
          parse_signal_line_def groups2_def split_def Let_def)
qed

lemma fold_parse_line_title:
  "currentTitle (fold parse_line ls st) = last (currentTitle st # directive_values ''title'' ls)"
proof (induction ls arbitrary: st)
  case Nil
  then show ?case by (simp add: directive_values_Nil)
next
  case (Cons l ls)
  show ?case
    by (subst directive_values_Cons) (simp add: Cons.IH parse_line_title)
qed

lemma fold_parse_line_unit:
  "currentUnit (fold parse_line ls st)
     = (if directive_values ''unit'' ls = [] then currentUnit st
        else Some (last (directive_values ''unit'' ls)))"
proof (induction ls arbitrary: st)
  case Nil
  then show ?case by (simp add: directive_values_Nil)
next
  case (Cons l ls)
  show ?case
    by (subst (1 2) directive_values_Cons) (simp add: Cons.IH parse_line_unit)
qed

lemma fold_parse_line_markers:
  "markers (fold parse_line ls st)
     = markers st @ List.map_filter marker_of_value (directive_values ''marker'' ls)"
proof (induction ls arbitrary: st)
  case Nil
  then show ?case by (simp add: directive_values_Nil)
next
  case (Cons l ls)
  show ?case
    by (subst directive_values_Cons)
       (simp add: Cons.IH parse_line_markers map_filter_def)
qed

lemma fold_parse_line_signals:
  "map signal_view (doc_signals (fold parse_line ls st))
     = map signal_view (doc_signals st) @ List.map_filter signal_of_line ls"
proof (induction ls arbitrary: st)
  case Nil
  then show ?case by simp
next
  case (Cons l ls)
  show ?case
    using parse_line_signal [of l st] by (simp add: Cons.IH split: option.splits)
qed


lemma final_timeConfig_fields:
  "tc_unit (set_totalSteps sigs (set_markers ms (set_unit u tc)))
     = (case u of None \<Rightarrow> tc_unit tc | Some x \<Rightarrow> if x \<noteq> [] then Some x else tc_unit tc)"
  "tc_markers (set_totalSteps sigs (set_markers ms (set_unit u tc)))
     = (if ms \<noteq> [] then Some ms else tc_markers tc)"
  by (simp_all add: set_totalSteps_def set_markers_def set_unit_def
        split: list.splits option.splits)

lemma createDocument_timeConfig:
  "tc_unit (timeConfig (fst (createDocument t w))) = None"
  "tc_markers (timeConfig (fst (createDocument t w))) = None"
  by (simp_all add: createDocument_def split_def Let_def)

lemma initial_state_fields:
  "currentTitle (initial_state doc w) = js ''Untitled Waveform''"
  "currentUnit (initial_state doc w) = None"
  "markers (initial_state doc w) = []"
  by (simp_all add: initial_state_def)

text \<open>
  What \<open>parse\<close> keeps of a text, line by line, in five parts: its result, the document and
  the next state of the id generator, is the result on the text without its unmatched
  lines; the signals of the document are, in order, those of the lines that \<open>signal_re\<close>
  matches; the title is the value of the last \<open>title\<close> directive, or the default; the unit is
  the value of the last \<open>unit\<close> directive, if any; the markers are, in order, those of the
  \<open>marker\<close> directives whose value \<open>marker_re\<close> matches.
\<close>

lemma parse_by_lines:
  "parse (join_nl (filter (\<lambda>l. \<not> unmatched l) (split_nl text))) w = parse text w
   \<and> map signal_view (signals (fst (parse text w)))
       = List.map_filter signal_of_line (split_nl text)
   \<and> title (metadata (fst (parse text w)))
       = last (js ''Untitled Waveform'' # directive_values ''title'' (split_nl text))
   \<and> tc_unit (timeConfig (fst (parse text w)))
       = (if directive_values ''unit'' (split_nl text) = [] then None
          else Some (last (directive_values ''unit'' (split_nl text))))
   \<and> tc_markers (timeConfig (fst (parse text w)))
       = (if List.map_filter marker_of_value (directive_values ''marker'' (split_nl text)) = []
          then None
          else Some (List.map_filter marker_of_value (directive_values ''marker'' (split_nl text))))"
proof (intro conjI)
  show "parse (join_nl (filter (\<lambda>l. \<not> unmatched l) (split_nl text))) w = parse text w"
    by (rule parse_without_unmatched)
  show "map signal_view (signals (fst (parse text w)))
          = List.map_filter signal_of_line (split_nl text)"
    by (simp add: parse_final_state(1) final_state_def fold_parse_line_signals initial_signals)
  show "title (metadata (fst (parse text w)))
          = last (js ''Untitled Waveform'' # directive_values ''title'' (split_nl text))"
    by (simp only: parse_final_state(3) final_state_def fold_parse_line_title
          initial_state_fields)
  have "last (directive_values ''unit'' (split_nl text)) \<noteq> []"
    if "directive_values ''unit'' (split_nl text) \<noteq> []"
    using that directive_value_nonempty [of _ "''unit''" "split_nl text"] last_in_set by blast
  then show "tc_unit (timeConfig (fst (parse text w)))
          = (if directive_values ''unit'' (split_nl text) = [] then None
             else Some (last (directive_values ''unit'' (split_nl text))))"
    by (simp add: parse_final_state(2) final_timeConfig_fields createDocument_timeConfig
          final_state_def fold_parse_line_unit initial_state_fields)
  show "tc_markers (timeConfig (fst (parse text w)))
       = (if List.map_filter marker_of_value (directive_values ''marker'' (split_nl text)) = []
          then None
          else Some (List.map_filter marker_of_value (directive_values ''marker'' (split_nl text))))"
    by (simp add: parse_final_state(2) final_timeConfig_fields createDocument_timeConfig
          final_state_def fold_parse_line_markers initial_state_fields)
qed

section \<open>The parser on an engine that bounds the arguments of a call\<close>

text \<open>On an engine, \<open>parse\<close> throws exactly when the text has more signal lines than the
  engine accepts arguments; otherwise it returns the document of \<open>parse\<close>. The world is the
  same in both cases.\<close>

lemma parse_on_engine_parse:
  "parse_on_engine max_args text w =
     (if max_args < length (signals (fst (parse text w))) then Inl RangeError
      else Inr (fst (parse text w)), snd (parse text w))"
proof (cases "doc_signals (final_state text w)")
  case Nil
  then show ?thesis
    by (simp add: parse_on_engine_def parse_def set_totalSteps_on_engine_def set_totalSteps_def
          final_state_def split_def Let_def)
next
  case (Cons sg sgs)
  then show ?thesis
    by (simp add: parse_on_engine_def parse_def set_totalSteps_on_engine_def set_totalSteps_def
          final_state_def split_def Let_def)
qed

text \<open>Likewise for the validator.\<close>

lemma validate_on_engine_validate:
  "validate_on_engine max_args text =
     (if max_args < length (fold lengths_line (split_nl text) []) then Inl RangeError
      else Inr (validate text))"
  by (cases "fold lengths_line (split_nl text) []")
     (simp_all add: validate_on_engine_def length_warnings_on_engine_def validate_def
        length_warnings_def split_def Let_def)

lemma map_filter_replicate:
  "f x = Some y \<Longrightarrow> List.map_filter f (replicate n x) = replicate n y"
  by (induction n) simp_all

lemma join_split_replicate:
  "10 \<notin> set l \<Longrightarrow> List.map_filter signal_of_line (split_nl (join_nl (replicate n l)))
     = List.map_filter signal_of_line (replicate n l)"
proof (cases n)
  case 0
  then show ?thesis by (simp add: signal_of_line_def trim_Nil)
next
  case (Suc m)
  assume "10 \<notin> set l"
  then have "split_nl (join_nl (replicate n l)) = replicate n l"
    using Suc by (intro split_join) auto
  then show ?thesis by simp
qed

lemma signal_of_short_line:
  "signal_of_line (js ''A: 0'') = Some (js ''A'', [\<lparr>svalue = Some 48, duration = 1\<rparr>], None)"
  by (simp add: signal_of_line_def js_def trim_def groups2_def regex_defs char_class_defs
        parseSignalStates_def)

lemma many_signals:
  "length (signals (fst (parse (join_nl (replicate n (js ''A: 0''))) w))) = n"
proof -
  have "map signal_view (signals (fst (parse (join_nl (replicate n (js ''A: 0''))) w)))
      = List.map_filter signal_of_line (replicate n (js ''A: 0''))"
    using parse_by_lines [of "join_nl (replicate n (js ''A: 0''))" w]
    by (simp add: join_split_replicate js_def)
  also have "\<dots> = replicate n (js ''A'', [\<lparr>svalue = Some 48, duration = 1\<rparr>], None)"
    by (rule map_filter_replicate) (rule signal_of_short_line)
  finally have "length (map signal_view (signals (fst (parse (join_nl (replicate n (js ''A: 0''))) w))))
      = n"
    by simp
  then show ?thesis by simp
qed

text \<open>
  Claim C9: \<open>parse\<close> never raises on any input text, every malformed line is skipped
  without effect, and all well-formed lines of the text are parsed into the document. The
  code skips the lines that its patterns do not match (\<open>parse_by_lines\<close>), but it breaks the
  claim in two places. On a text of \<open>n\<close> signal lines \<open>A: 0\<close>, an engine that accepts fewer than
  \<open>n\<close> arguments in a call throws a RangeError from \<open>Math.max(...)\<close> instead of returning a
  document. And the well-formed signal line \<open>CLK: 0101  # clock\<close> is not parsed: the document
  comes back without any signal.
\<close>

theorem parse_breaks_its_promise:
  assumes "max_args < n"
  shows "fst (parse_on_engine max_args (join_nl (replicate n (js ''A: 0''))) w) = Inl RangeError
    \<and> fst (parse_on_engine max_args (js ''CLK: 0101  # clock'') w)
        = Inr (fst (parse (js ''CLK: 0101  # clock'') w))
    \<and> signals (fst (parse (js ''CLK: 0101  # clock'') w)) = []"
proof -
  have s: "signals (fst (parse (js ''CLK: 0101  # clock'') w)) = []"
    by (simp add: parse_defs regex_defs char_class_defs)
  show ?thesis
    using assms by (simp add: parse_on_engine_parse many_signals s)
qed

text \<open>An instance: 200000 signal lines on an engine that accepts 65536 arguments.\<close>

theorem parse_breaks_its_promise_witness:
  "(65536 :: nat) < 200000
   \<and> fst (parse_on_engine 65536 (join_nl (replicate 200000 (js ''A: 0''))) example_world)
       = Inl RangeError
   \<and> fst (parse_on_engine 65536 (js ''CLK: 0101  # clock'') example_world)
       = Inr (fst (parse (js ''CLK: 0101  # clock'') example_world))
   \<and> signals (fst (parse (js ''CLK: 0101  # clock'') example_world)) = []"
proof -
  have h: "(65536 :: nat) < 200000" by simp
  from h parse_breaks_its_promise [OF h, of example_world] show ?thesis
    by (intro conjI) (erule conjE | assumption)+
qed

end
